theory Spec2Isabelle
  imports Main "HOL-Library.AList"
begin

section \<open>The NCNN backend wrapper (mmdeploy/backend/ncnn/wrapper.py)\<close>

subsection \<open>Python exceptions\<close>

text \<open>
  Every \<^verbatim>\<open>raise\<close> and every failing \<^verbatim>\<open>assert\<close> of the source is a value
  of this type. An \<^verbatim>\<open>assert c, msg\<close> that fails is \<open>AssertionError msg\<close>; the
  others are raised by the list, dict and tensor operations the wrapper calls.
\<close>

datatype py_error =
    IndexError string
  | KeyError string
  | AssertionError string
  | RuntimeError string
  | TypeError string

subsection \<open>Tensors\<close>

text \<open>
  A \<^verbatim>\<open>torch.Tensor\<close> as far as the wrapper looks at it: its shape, its elements
  in row-major order and the \<^verbatim>\<open>device.type\<close> string. The wrapper never computes
  with the elements, so their type is a parameter.
\<close>

record 'a tensor =
  shape :: "nat list"
  data :: "'a list"
  device :: string

text \<open>A numpy array: shape and elements (always in host memory).\<close>

type_synonym 'a ndarray = "nat list \<times> 'a list"

text \<open>\<^verbatim>\<open>t.size(0)\<close>: raises IndexError on a tensor without dimensions.\<close>

definition size0 :: "'a tensor \<Rightarrow> py_error + nat" where
  "size0 t =
     (case shape t of
        [] \<Rightarrow> Inl (IndexError ''Dimension specified as 0 but tensor has no dimensions'')
      | n # _ \<Rightarrow> Inr n)"

text \<open>\<^verbatim>\<open>t[i]\<close> for a non-negative \<open>i\<close>: the \<open>i\<close>-th slice along the leading dimension.\<close>

definition select0 :: "'a tensor \<Rightarrow> nat \<Rightarrow> py_error + 'a tensor" where
  "select0 t i =
     (case shape t of
        [] \<Rightarrow> Inl (IndexError ''invalid index of a 0-dim tensor'')
      | n # sh \<Rightarrow>
          if i < n
          then Inr \<lparr>shape = sh,
                    data = take (prod_list sh) (drop (i * prod_list sh) (data t)),
                    device = device t\<rparr>
          else Inl (IndexError ''index out of range''))"

text \<open>\<^verbatim>\<open>t.detach().cpu().numpy()\<close>: the device is dropped, shape and elements stay.\<close>

definition numpy :: "'a tensor \<Rightarrow> 'a ndarray" where
  "numpy t = (shape t, data t)"

text \<open>\<^verbatim>\<open>torch.from_numpy(a)\<close>: a CPU tensor over the array.\<close>

definition from_numpy :: "'a ndarray \<Rightarrow> 'a tensor" where
  "from_numpy a = \<lparr>shape = fst a, data = snd a, device = ''cpu''\<rparr>"

text \<open>
  \<^verbatim>\<open>torch.stack(slots)\<close> on a Python list whose entries are tensors or
  \<^verbatim>\<open>None\<close>: a \<^verbatim>\<open>None\<close> entry is a TypeError, an empty list and tensors of
  different shape or device are RuntimeErrors; otherwise the tensors are laid
  out one after the other under a new leading dimension.
\<close>

definition stack :: "'a tensor option list \<Rightarrow> py_error + 'a tensor" where
  "stack slots =
     (case those slots of
        None \<Rightarrow> Inl (TypeError ''expected Tensor as element of argument tensors'')
      | Some [] \<Rightarrow> Inl (RuntimeError ''stack expects a non-empty TensorList'')
      | Some (t # ts) \<Rightarrow>
          if list_all (\<lambda>u. shape u = shape t \<and> device u = device t) ts
          then Inr \<lparr>shape = Suc (length ts) # shape t,
                    data = concat (map data (t # ts)),
                    device = device t\<rparr>
          else Inl (RuntimeError ''stack expects each tensor to be equal size''))"

subsection \<open>Python dicts\<close>

text \<open>
  A \<^verbatim>\<open>dict\<close> is an association list in insertion order with one entry per
  key: \<open>AList.update\<close> overwrites the entry of a key that is present and appends
  a key that is new, as \<^verbatim>\<open>d[k] = v\<close> does. \<open>dict_of\<close> is \<^verbatim>\<open>dict(pairs)\<close>.
\<close>

definition dict_of :: "('k \<times> 'v) list \<Rightarrow> ('k \<times> 'v) list" where
  "dict_of ps = fold (\<lambda>(k, v) d. AList.update k v d) ps []"

subsection \<open>The engine\<close>

text \<open>
  The \<^verbatim>\<open>ncnn\<close> package is not part of the repository, so the loaded network is
  a parameter: a record of what the wrapper calls on it. \<open>'m\<close> is
  \<^verbatim>\<open>ncnn.Mat\<close>, \<open>'ex\<close> the state of an \<^verbatim>\<open>ncnn.Extractor\<close>.
  \<^item> \<open>net_output_names\<close>: \<open>None\<close> when the object has no attribute
    \<^verbatim>\<open>output_names\<close>, otherwise what \<^verbatim>\<open>net.output_names()\<close> returns;
  \<^item> \<open>create_extractor\<close>: the fresh extractor \<^verbatim>\<open>net.create_extractor()\<close> returns;
  \<^item> \<open>ex_input\<close>: \<^verbatim>\<open>ex.input(name, mat)\<close>, which changes the extractor (the wrapper
    drops the status it returns);
  \<^item> \<open>ex_extract\<close>: \<^verbatim>\<open>ex.extract(name)\<close>, the pair of status and Mat it returns and
    the extractor afterwards;
  \<^item> \<open>Mat\<close>: the constructor \<^verbatim>\<open>ncnn.Mat(array)\<close>, which may raise;
  \<^item> \<open>np_array\<close>: \<^verbatim>\<open>np.array(mat)\<close>;
  \<^item> \<open>mat_str\<close>: \<^verbatim>\<open>str(mat)\<close>, used by the f-string of the failure message.
\<close>

record ('a, 'm, 'ex) ncnn_net =
  net_output_names :: "string list option"
  create_extractor :: "'ex"
  ex_input :: "'ex \<Rightarrow> string \<Rightarrow> 'm \<Rightarrow> 'ex"
  ex_extract :: "'ex \<Rightarrow> string \<Rightarrow> (int \<times> 'm) \<times> 'ex"
  Mat :: "'a ndarray \<Rightarrow> py_error + 'm"
  np_array :: "'m \<Rightarrow> 'a ndarray"
  mat_str :: "'m \<Rightarrow> string"

text \<open>
  What a call leaves behind outside its return value: the number of extractors
  created so far.
\<close>

record world =
  extractors_created :: nat

subsection \<open>The wrapper\<close>

text \<open>The two attributes of an \<^verbatim>\<open>NCNNWrapper\<close>: \<^verbatim>\<open>_net\<close> and \<^verbatim>\<open>_output_names\<close>.\<close>

record ('a, 'm, 'ex) wrapper =
  net :: "('a, 'm, 'ex) ncnn_net"
  output_names :: "string list"

text \<open>
  Modelled from the spec: \<^verbatim>\<open>BaseWrapper.__init__\<close> (mmdeploy/backend/base) is not
  among the sources; by section 4.2 of the specification the resolved list it
  receives is the one every inference call uses, so it is stored as it is.
\<close>

definition base_init ::
  "('a, 'm, 'ex) ncnn_net \<Rightarrow> string list \<Rightarrow> ('a, 'm, 'ex) wrapper" where
  "base_init n names = \<lparr>net = n, output_names = names\<rparr>"

text \<open>
  \<^verbatim>\<open>NCNNWrapper.__init__\<close> from the point where the network \<open>n\<close> is loaded
  (lines 50 to 55): with no names given, the network must have the attribute
  \<^verbatim>\<open>output_names\<close> (a bare \<^verbatim>\<open>assert\<close>, so the message is empty) and is asked.
\<close>

definition init ::
  "('a, 'm, 'ex) ncnn_net \<Rightarrow> string list option \<Rightarrow> py_error + ('a, 'm, 'ex) wrapper" where
  "init n names_arg =
     (case names_arg of
        Some names \<Rightarrow> Inr (base_init n names)
      | None \<Rightarrow>
          (case net_output_names n of
             None \<Rightarrow> Inl (AssertionError [])
           | Some names \<Rightarrow> Inr (base_init n names)))"

text \<open>\<^verbatim>\<open>get_backend_file_count\<close>.\<close>

definition get_backend_file_count :: nat where
  "get_backend_file_count = 2"

text \<open>
  The validation loop of \<^verbatim>\<open>forward\<close> (lines 80 to 84) over \<^verbatim>\<open>input_list[1:]\<close>:
  first the batch size of the tensor, then its device.
\<close>

fun check_inputs :: "nat \<Rightarrow> 'a tensor list \<Rightarrow> py_error + unit" where
  "check_inputs batch_size [] = Inr ()"
| "check_inputs batch_size (input_tensor # rest) =
     (case size0 input_tensor of
        Inl e \<Rightarrow> Inl e
      | Inr n \<Rightarrow>
          if n \<noteq> batch_size
          then Inl (AssertionError ''All tensors should have same batch size'')
          else if device input_tensor \<noteq> ''cpu''
          then Inl (AssertionError ''NCNN only supports cpu device'')
          else check_inputs batch_size rest)"

text \<open>
  The loop that binds the inputs of one sample (lines 98 to 101): slice,
  convert, \<^verbatim>\<open>ex.input\<close>.
\<close>

fun set_inputs ::
  "('a, 'm, 'ex) ncnn_net \<Rightarrow> 'ex \<Rightarrow> (string \<times> 'a tensor) list \<Rightarrow> nat \<Rightarrow> py_error + 'ex" where
  "set_inputs n ex [] batch_id = Inr ex"
| "set_inputs n ex ((name, input_tensor) # rest) batch_id =
     (case select0 input_tensor batch_id of
        Inl e \<Rightarrow> Inl e
      | Inr sample \<Rightarrow>
          (case Mat n (numpy sample) of
             Inl e \<Rightarrow> Inl e
           | Inr input_mat \<Rightarrow> set_inputs n (ex_input n ex name input_mat) rest batch_id))"

text \<open>
  \<^verbatim>\<open>__ncnn_execute\<close> (lines 129 to 134), with the dict \<^verbatim>\<open>result\<close> built so far as
  an argument. The message of the assertion is the f-string of the source: the
  rendering of \<^verbatim>\<open>out\<close>, the Mat that \<^verbatim>\<open>extract\<close> returned.

  Modelled from the spec: the decorator \<^verbatim>\<open>TimeCounter.count_time\<close>
  (mmdeploy/utils/timer) is not among the sources; by section 4.3 of the
  specification it is a timing hook around the call, so the decorated function
  returns and raises what its body does.
\<close>

fun ncnn_execute ::
  "('a, 'm, 'ex) ncnn_net \<Rightarrow> 'ex \<Rightarrow> string list \<Rightarrow> (string \<times> 'm) list
     \<Rightarrow> py_error + (string \<times> 'm) list" where
  "ncnn_execute n extractor [] result = Inr result"
| "ncnn_execute n extractor (name # names) result =
     (case ex_extract n extractor name of
        ((out_ret, out), extractor') \<Rightarrow>
          if out_ret \<noteq> 0
          then Inl (AssertionError (''Failed to extract output : '' @ mat_str n out @ ''.''))
          else ncnn_execute n extractor' names (AList.update name out result))"

text \<open>
  The loop that stores one sample's results (lines 106 to 108):
  \<^verbatim>\<open>outputs[name][batch_id] = torch.from_numpy(np.array(result[name]))\<close>.
\<close>

fun store_results ::
  "('a, 'm, 'ex) ncnn_net \<Rightarrow> string list \<Rightarrow> (string \<times> 'm) list \<Rightarrow> nat
     \<Rightarrow> (string \<times> 'a tensor option list) list
     \<Rightarrow> py_error + (string \<times> 'a tensor option list) list" where
  "store_results n [] result batch_id outputs = Inr outputs"
| "store_results n (name # names) result batch_id outputs =
     (case map_of result name of
        None \<Rightarrow> Inl (KeyError name)
      | Some out \<Rightarrow>
          (case map_of outputs name of
             None \<Rightarrow> Inl (KeyError name)
           | Some slots \<Rightarrow>
               if batch_id < length slots
               then store_results n names result batch_id
                      (AList.update name
                         (slots[batch_id := Some (from_numpy (np_array n out))]) outputs)
               else Inl (IndexError ''list assignment index out of range'')))"

text \<open>
  The inference loop (lines 93 to 108) over the remaining batch ids. Each
  iteration creates an extractor, which the world records.
\<close>

fun run_batch ::
  "('a, 'm, 'ex) ncnn_net \<Rightarrow> string list \<Rightarrow> (string \<times> 'a tensor) list \<Rightarrow> nat list
     \<Rightarrow> (string \<times> 'a tensor option list) list \<Rightarrow> world
     \<Rightarrow> (py_error + (string \<times> 'a tensor option list) list) \<times> world" where
  "run_batch n names inputs [] outputs s = (Inr outputs, s)"
| "run_batch n names inputs (batch_id # ids) outputs s =
     (let ex = create_extractor n;
          s1 = s\<lparr>extractors_created := Suc (extractors_created s)\<rparr>
      in case set_inputs n ex inputs batch_id of
           Inl e \<Rightarrow> (Inl e, s1)
         | Inr ex1 \<Rightarrow>
             (case ncnn_execute n ex1 names [] of
                Inl e \<Rightarrow> (Inl e, s1)
              | Inr result \<Rightarrow>
                  (case store_results n names result batch_id outputs of
                     Inl e \<Rightarrow> (Inl e, s1)
                   | Inr outputs1 \<Rightarrow> run_batch n names inputs ids outputs1 s1)))"

text \<open>
  The stacking loop (lines 111 to 112) over \<^verbatim>\<open>outputs.items()\<close>: each list of
  per-sample tensors is replaced by its stack, in the order of the dict.
\<close>

fun stack_outputs ::
  "(string \<times> 'a tensor option list) list \<Rightarrow> py_error + (string \<times> 'a tensor) list" where
  "stack_outputs [] = Inr []"
| "stack_outputs ((name, input_tensor) # rest) =
     (case stack input_tensor of
        Inl e \<Rightarrow> Inl e
      | Inr t \<Rightarrow>
          (case stack_outputs rest of
             Inl e \<Rightarrow> Inl e
           | Inr stacked \<Rightarrow> Inr ((name, t) # stacked)))"

text \<open>
  \<^verbatim>\<open>NCNNWrapper.forward\<close>. The input dict is an association list in insertion
  order; \<^verbatim>\<open>input_list[0]\<close> on an empty list raises IndexError.
\<close>

definition forward ::
  "('a, 'm, 'ex) wrapper \<Rightarrow> (string \<times> 'a tensor) list \<Rightarrow> world
     \<Rightarrow> (py_error + (string \<times> 'a tensor) list) \<times> world" where
  "forward self inputs s =
     (case map snd inputs of
        [] \<Rightarrow> (Inl (IndexError ''list index out of range''), s)
      | first # rest \<Rightarrow>
          (case size0 first of
             Inl e \<Rightarrow> (Inl e, s)
           | Inr batch_size \<Rightarrow>
               (case check_inputs batch_size rest of
                  Inl e \<Rightarrow> (Inl e, s)
                | Inr _ \<Rightarrow>
                    (let outputs = dict_of (map (\<lambda>name. (name, replicate batch_size None))
                                             (output_names self))
                     in case run_batch (net self) (output_names self) inputs
                               [0..<batch_size] outputs s of
                          (Inl e, s') \<Rightarrow> (Inl e, s')
                        | (Inr outputs', s') \<Rightarrow> (stack_outputs outputs', s')))))"

subsection \<open>The wrapper in a process whose memory the engine reads and writes\<close>

text \<open>
  Between two calls of \<^verbatim>\<open>forward\<close> the process keeps the network behind
  \<^verbatim>\<open>self._net\<close> and the storage of every tensor, and the engine works on
  both: \<^verbatim>\<open>ncnn.Mat\<close> is handed the array of the caller's tensor (lines
  99 to 101) and \<^verbatim>\<open>extract\<close> runs the network. For a property of two calls
  the calls are therefore modelled once more, with this memory passed through
  every operation of the engine. For an engine that does not touch the memory
  the two models return the same (lemma \<open>forward_st_in_process\<close>).

  A tensor object is its shape, its device and the address of its storage; the
  elements are read from the process when the tensor is used.
\<close>

record tensor_ref =
  ref_addr :: nat
  ref_shape :: "nat list"
  ref_device :: string

text \<open>
  The process: the state of the Network Handle and the storages by address.
\<close>

record ('a, 'n) process =
  handle :: 'n
  storage :: "nat \<Rightarrow> 'a list"

definition deref :: "('a, 'n) process \<Rightarrow> tensor_ref \<Rightarrow> 'a tensor" where
  "deref s r = \<lparr>shape = ref_shape r, data = storage s (ref_addr r), device = ref_device r\<rparr>"

text \<open>
  The engine in a process. Each operation takes the process and returns it as
  it has left it, so an engine that writes into its network, into memory of
  its own or into the storage of the tensor a Mat was built from is among the
  engines the record ranges over; \<^verbatim>\<open>np.array(mat)\<close> and \<^verbatim>\<open>str(mat)\<close> read the
  process.
\<close>

record ('a, 'm, 'ex, 'n) ncnn_engine =
  st_create_extractor :: "('a, 'n) process \<Rightarrow> 'ex \<times> ('a, 'n) process"
  st_input :: "'ex \<Rightarrow> string \<Rightarrow> 'm \<Rightarrow> ('a, 'n) process \<Rightarrow> 'ex \<times> ('a, 'n) process"
  st_extract :: "'ex \<Rightarrow> string \<Rightarrow> ('a, 'n) process \<Rightarrow> ((int \<times> 'm) \<times> 'ex) \<times> ('a, 'n) process"
  st_Mat :: "'a ndarray \<Rightarrow> ('a, 'n) process \<Rightarrow> (py_error + 'm) \<times> ('a, 'n) process"
  st_np_array :: "'m \<Rightarrow> ('a, 'n) process \<Rightarrow> 'a ndarray"
  st_mat_str :: "'m \<Rightarrow> ('a, 'n) process \<Rightarrow> string"

text \<open>The wrapper: \<^verbatim>\<open>_net\<close> and \<^verbatim>\<open>_output_names\<close>.\<close>

record ('a, 'm, 'ex, 'n) wrapper_st =
  net_st :: "('a, 'm, 'ex, 'n) ncnn_engine"
  output_names_st :: "string list"

text \<open>
  Lines 98 to 101: the sample is sliced from the storage as it is when the
  input is bound.
\<close>

fun set_inputs_st ::
  "('a, 'm, 'ex, 'n) ncnn_engine \<Rightarrow> 'ex \<Rightarrow> (string \<times> tensor_ref) list \<Rightarrow> nat
     \<Rightarrow> ('a, 'n) process \<Rightarrow> (py_error + 'ex) \<times> ('a, 'n) process" where
  "set_inputs_st e ex [] batch_id s = (Inr ex, s)"
| "set_inputs_st e ex ((name, input_tensor) # rest) batch_id s =
     (case select0 (deref s input_tensor) batch_id of
        Inl err \<Rightarrow> (Inl err, s)
      | Inr sample \<Rightarrow>
          (case st_Mat e (numpy sample) s of
             (Inl err, s1) \<Rightarrow> (Inl err, s1)
           | (Inr input_mat, s1) \<Rightarrow>
               (case st_input e ex name input_mat s1 of
                  (ex1, s2) \<Rightarrow> set_inputs_st e ex1 rest batch_id s2)))"

text \<open>\<^verbatim>\<open>__ncnn_execute\<close>, lines 129 to 134.\<close>

fun ncnn_execute_st ::
  "('a, 'm, 'ex, 'n) ncnn_engine \<Rightarrow> 'ex \<Rightarrow> string list \<Rightarrow> (string \<times> 'm) list
     \<Rightarrow> ('a, 'n) process \<Rightarrow> (py_error + (string \<times> 'm) list) \<times> ('a, 'n) process" where
  "ncnn_execute_st e extractor [] result s = (Inr result, s)"
| "ncnn_execute_st e extractor (name # names) result s =
     (case st_extract e extractor name s of
        (((out_ret, out), extractor'), s1) \<Rightarrow>
          if out_ret \<noteq> 0
          then (Inl (AssertionError
                       (''Failed to extract output : '' @ st_mat_str e out s1 @ ''.'')), s1)
          else ncnn_execute_st e extractor' names (AList.update name out result) s1)"

text \<open>
  Lines 106 to 108, with \<^verbatim>\<open>np.array\<close> as the argument \<open>conv\<close>: the process is
  only read here.
\<close>

fun store_results_st ::
  "('m \<Rightarrow> 'a ndarray) \<Rightarrow> string list \<Rightarrow> (string \<times> 'm) list \<Rightarrow> nat
     \<Rightarrow> (string \<times> 'a tensor option list) list
     \<Rightarrow> py_error + (string \<times> 'a tensor option list) list" where
  "store_results_st conv [] result batch_id outputs = Inr outputs"
| "store_results_st conv (name # names) result batch_id outputs =
     (case map_of result name of
        None \<Rightarrow> Inl (KeyError name)
      | Some out \<Rightarrow>
          (case map_of outputs name of
             None \<Rightarrow> Inl (KeyError name)
           | Some slots \<Rightarrow>
               if batch_id < length slots
               then store_results_st conv names result batch_id
                      (AList.update name (slots[batch_id := Some (from_numpy (conv out))]) outputs)
               else Inl (IndexError ''list assignment index out of range'')))"

text \<open>The inference loop, lines 93 to 108.\<close>

fun run_batch_st ::
  "('a, 'm, 'ex, 'n) ncnn_engine \<Rightarrow> string list \<Rightarrow> (string \<times> tensor_ref) list \<Rightarrow> nat list
     \<Rightarrow> (string \<times> 'a tensor option list) list \<Rightarrow> ('a, 'n) process
     \<Rightarrow> (py_error + (string \<times> 'a tensor option list) list) \<times> ('a, 'n) process" where
  "run_batch_st e names inputs [] outputs s = (Inr outputs, s)"
| "run_batch_st e names inputs (batch_id # ids) outputs s =
     (case st_create_extractor e s of
        (ex, s1) \<Rightarrow>
          (case set_inputs_st e ex inputs batch_id s1 of
             (Inl err, s2) \<Rightarrow> (Inl err, s2)
           | (Inr ex1, s2) \<Rightarrow>
               (case ncnn_execute_st e ex1 names [] s2 of
                  (Inl err, s3) \<Rightarrow> (Inl err, s3)
                | (Inr result, s3) \<Rightarrow>
                    (case store_results_st (\<lambda>out. st_np_array e out s3) names result
                            batch_id outputs of
                       Inl err \<Rightarrow> (Inl err, s3)
                     | Inr outputs1 \<Rightarrow> run_batch_st e names inputs ids outputs1 s3))))"

text \<open>\<^verbatim>\<open>forward\<close>, lines 78 to 114.\<close>

definition forward_st ::
  "('a, 'm, 'ex, 'n) wrapper_st \<Rightarrow> (string \<times> tensor_ref) list \<Rightarrow> ('a, 'n) process
     \<Rightarrow> (py_error + (string \<times> 'a tensor) list) \<times> ('a, 'n) process" where
  "forward_st self inputs s =
     (case map (deref s) (map snd inputs) of
        [] \<Rightarrow> (Inl (IndexError ''list index out of range''), s)
      | first # rest \<Rightarrow>
          (case size0 first of
             Inl err \<Rightarrow> (Inl err, s)
           | Inr batch_size \<Rightarrow>
               (case check_inputs batch_size rest of
                  Inl err \<Rightarrow> (Inl err, s)
                | Inr _ \<Rightarrow>
                    (let outputs = dict_of (map (\<lambda>name. (name, replicate batch_size None))
                                             (output_names_st self))
                     in case run_batch_st (net_st self) (output_names_st self) inputs
                               [0..<batch_size] outputs s of
                          (Inl err, s') \<Rightarrow> (Inl err, s')
                        | (Inr outputs', s') \<Rightarrow> (stack_outputs outputs', s')))))"

text \<open>
  Two states of the process agree on what a call is given when the Network
  Handle is in the same state and every input tensor has the same elements.
  Whatever else the memory holds may differ.
\<close>

definition same_view :: "(string \<times> tensor_ref) list \<Rightarrow> ('a, 'n) process \<Rightarrow> ('a, 'n) process \<Rightarrow> bool" where
  "same_view inputs s s' =
     (handle s = handle s' \<and>
      list_all (\<lambda>r. storage s (ref_addr r) = storage s' (ref_addr r)) (map snd inputs))"

text \<open>
  The engine as a deterministic function of the Network Handle and the inputs:
  from two states that agree on them, each operation returns the same value
  and leaves two states that agree on them again.
\<close>

definition deterministic_engine ::
  "(string \<times> tensor_ref) list \<Rightarrow> ('a, 'm, 'ex, 'n) ncnn_engine \<Rightarrow> bool" where
  "deterministic_engine inputs e =
     (\<forall>s s'. same_view inputs s s' \<longrightarrow>
        (fst (st_create_extractor e s) = fst (st_create_extractor e s') \<and>
         same_view inputs (snd (st_create_extractor e s)) (snd (st_create_extractor e s'))) \<and>
        (\<forall>a. fst (st_Mat e a s) = fst (st_Mat e a s') \<and>
             same_view inputs (snd (st_Mat e a s)) (snd (st_Mat e a s'))) \<and>
        (\<forall>ex name m. fst (st_input e ex name m s) = fst (st_input e ex name m s') \<and>
             same_view inputs (snd (st_input e ex name m s)) (snd (st_input e ex name m s'))) \<and>
        (\<forall>ex name. fst (st_extract e ex name s) = fst (st_extract e ex name s') \<and>
             same_view inputs (snd (st_extract e ex name s)) (snd (st_extract e ex name s'))) \<and>
        (\<forall>m. st_np_array e m s = st_np_array e m s') \<and>
        (\<forall>m. st_mat_str e m s = st_mat_str e m s'))"

text \<open>
  An engine that leaves the Network Handle and the input tensors as they are:
  after each operation the process agrees with the process before it.
\<close>

definition quiet_engine ::
  "(string \<times> tensor_ref) list \<Rightarrow> ('a, 'm, 'ex, 'n) ncnn_engine \<Rightarrow> bool" where
  "quiet_engine inputs e =
     (\<forall>s. same_view inputs s (snd (st_create_extractor e s)) \<and>
          (\<forall>a. same_view inputs s (snd (st_Mat e a s))) \<and>
          (\<forall>ex name m. same_view inputs s (snd (st_input e ex name m s))) \<and>
          (\<forall>ex name. same_view inputs s (snd (st_extract e ex name s))))"

text \<open>
  The engine of the sections above, which is a function of its arguments
  alone, as an engine in a process: it neither reads nor writes the memory.
\<close>

definition in_process :: "('a, 'm, 'ex) ncnn_net \<Rightarrow> ('a, 'm, 'ex, 'n) ncnn_engine" where
  "in_process n =
     \<lparr>st_create_extractor = (\<lambda>s. (create_extractor n, s)),
      st_input = (\<lambda>ex name m s. (ex_input n ex name m, s)),
      st_extract = (\<lambda>ex name s. (ex_extract n ex name, s)),
      st_Mat = (\<lambda>a s. (Mat n a, s)),
      st_np_array = (\<lambda>m s. np_array n m),
      st_mat_str = (\<lambda>m s. mat_str n m)\<rparr>"

subsection \<open>Concrete engines and inputs\<close>

text \<open>
  A small engine to run the wrapper on: a Mat is the array itself (at most
  four dimensions, as the constructor of the binding demands), an extractor is
  the dict of the inputs bound so far. Extracting \<^verbatim>\<open>boxes\<close> returns the Mat
  bound to \<^verbatim>\<open>input\<close>, extracting \<^verbatim>\<open>scores\<close> a fixed one-element Mat; any other
  name, or extraction with no input bound, has a non-zero status.
\<close>

definition demo_extract ::
  "(string \<times> int ndarray) list \<Rightarrow> string \<Rightarrow> (int \<times> int ndarray) \<times> (string \<times> int ndarray) list" where
  "demo_extract ex name =
     (case map_of ex ''input'' of
        None \<Rightarrow> ((- 100, ([], [])), ex)
      | Some m \<Rightarrow>
          if name = ''boxes'' then ((0, m), ex)
          else if name = ''scores'' then ((0, ([1], [7])), ex)
          else ((- 1, ([], [])), ex))"

definition demo_net :: "(int, int ndarray, (string \<times> int ndarray) list) ncnn_net" where
  "demo_net =
     \<lparr>net_output_names = Some [''boxes'', ''scores''],
      create_extractor = [],
      ex_input = (\<lambda>ex name m. AList.update name m ex),
      ex_extract = demo_extract,
      Mat = (\<lambda>a. if length (fst a) \<le> 4 then Inr a
                  else Inl (RuntimeError ''only dims <= 4 are supported'')),
      np_array = (\<lambda>m. m),
      mat_str = (\<lambda>m. ''<ncnn.Mat>'')\<rparr>"

text \<open>The same engine with every extraction failing with status \<open>-1\<close>.\<close>

definition failing_net :: "(int, int ndarray, (string \<times> int ndarray) list) ncnn_net" where
  "failing_net = demo_net\<lparr>ex_extract := (\<lambda>ex name. ((- 1, ([], [])), ex))\<rparr>"

definition world0 :: world where
  "world0 = \<lparr>extractors_created = 0\<rparr>"

definition cpu_tensor :: "nat list \<Rightarrow> int list \<Rightarrow> int tensor" where
  "cpu_tensor sh xs = \<lparr>shape = sh, data = xs, device = ''cpu''\<rparr>"

definition cuda_tensor :: "nat list \<Rightarrow> int list \<Rightarrow> int tensor" where
  "cuda_tensor sh xs = \<lparr>shape = sh, data = xs, device = ''cuda''\<rparr>"

definition demo_wrapper :: "(int, int ndarray, (string \<times> int ndarray) list) wrapper" where
  "demo_wrapper = \<lparr>net = demo_net, output_names = [''boxes'', ''scores'']\<rparr>"

text \<open>A batch of two samples under one input name, and what the wrapper returns for it.\<close>

definition demo_inputs :: "(string \<times> int tensor) list" where
  "demo_inputs = [(''input'', cpu_tensor [2, 2] [1, 2, 3, 4])]"

definition demo_outputs :: "(string \<times> int tensor) list" where
  "demo_outputs =
     [(''boxes'', cpu_tensor [2, 2] [1, 2, 3, 4]), (''scores'', cpu_tensor [2, 1] [7, 7])]"

text \<open>Two inputs whose leading dimensions differ.\<close>

definition mixed_inputs :: "(string \<times> int tensor) list" where
  "mixed_inputs = [(''a'', cpu_tensor [2] [1, 2]), (''b'', cpu_tensor [3] [1, 2, 3])]"

text \<open>A batch of one sample.\<close>

definition one_inputs :: "(string \<times> int tensor) list" where
  "one_inputs = [(''input'', cpu_tensor [1, 2] [3, 4])]"

text \<open>The same sample on another device, alone and after a CPU tensor.\<close>

definition cuda_inputs :: "(string \<times> int tensor) list" where
  "cuda_inputs = [(''input'', cuda_tensor [1, 2] [3, 4])]"

definition cuda_second_inputs :: "(string \<times> int tensor) list" where
  "cuda_second_inputs =
     [(''input'', cpu_tensor [1, 2] [3, 4]), (''other'', cuda_tensor [1, 2] [3, 4])]"

text \<open>A batch of no samples.\<close>

definition empty_batch_inputs :: "(string \<times> int tensor) list" where
  "empty_batch_inputs = [(''input'', cpu_tensor [0, 2] [])]"

text \<open>Wrappers constructed with explicit output names.\<close>

definition named_wrapper ::
  "('a, 'm, 'ex) ncnn_net \<Rightarrow> string list \<Rightarrow> ('a, 'm, 'ex) wrapper" where
  "named_wrapper n names = base_init n names"

text \<open>
  Engines in a process, over the integers as the state of the network.
  \<open>caching_engine\<close> computes as \<open>demo_net\<close> does, with the state of the network
  as the score, and keeps its last result at the address \<open>workspace\<close>.
  \<open>peeking_engine\<close> returns what it finds at that address. \<open>counting_engine\<close>
  counts the extractors it creates in the state of its network.
\<close>

definition workspace :: nat where
  "workspace = 99"

definition caching_extract ::
  "(string \<times> int ndarray) list \<Rightarrow> string \<Rightarrow> (int, int) process
     \<Rightarrow> ((int \<times> int ndarray) \<times> (string \<times> int ndarray) list) \<times> (int, int) process" where
  "caching_extract ex name s =
     (case map_of ex ''input'' of
        None \<Rightarrow> (((- 100, ([], [])), ex), s)
      | Some m \<Rightarrow>
          if name = ''boxes''
          then (((0, m), ex), s\<lparr>storage := (storage s)(workspace := snd m)\<rparr>)
          else if name = ''scores''
          then (((0, ([1], [handle s])), ex), s\<lparr>storage := (storage s)(workspace := [handle s])\<rparr>)
          else (((- 1, ([], [])), ex), s))"

definition caching_engine ::
  "(int, int ndarray, (string \<times> int ndarray) list, int) ncnn_engine" where
  "caching_engine =
     \<lparr>st_create_extractor = (\<lambda>s. ([], s)),
      st_input = (\<lambda>ex name m s. (AList.update name m ex, s)),
      st_extract = caching_extract,
      st_Mat = (\<lambda>a s. (if length (fst a) \<le> 4 then Inr a
                         else Inl (RuntimeError ''only dims <= 4 are supported''), s)),
      st_np_array = (\<lambda>m s. m),
      st_mat_str = (\<lambda>m s. ''<ncnn.Mat>'')\<rparr>"

definition peeking_engine ::
  "(int, int ndarray, (string \<times> int ndarray) list, int) ncnn_engine" where
  "peeking_engine =
     caching_engine\<lparr>st_extract := (\<lambda>ex name s. (((0, ([1], storage s workspace)), ex), s))\<rparr>"

definition counting_engine ::
  "(int, int ndarray, (string \<times> int ndarray) list, int) ncnn_engine" where
  "counting_engine =
     caching_engine\<lparr>st_create_extractor := (\<lambda>s. ([], s\<lparr>handle := handle s + 1\<rparr>))\<rparr>"

text \<open>
  One input tensor at address 1, and two states of the process that agree on
  the network and on that tensor and differ at \<open>workspace\<close>.
\<close>

definition demo_refs :: "(string \<times> tensor_ref) list" where
  "demo_refs = [(''input'', \<lparr>ref_addr = 1, ref_shape = [2, 2], ref_device = ''cpu''\<rparr>)]"

definition process0 :: "(int, int) process" where
  "process0 = \<lparr>handle = 7, storage = (\<lambda>a. [])(1 := [1, 2, 3, 4])\<rparr>"

definition process1 :: "(int, int) process" where
  "process1 = \<lparr>handle = 7, storage = (\<lambda>a. [])(1 := [1, 2, 3, 4], workspace := [5])\<rparr>"

definition demo_wrapper_st ::
  "(int, int ndarray, (string \<times> int ndarray) list, int) ncnn_engine
     \<Rightarrow> (int, int ndarray, (string \<times> int ndarray) list, int) wrapper_st" where
  "demo_wrapper_st e = \<lparr>net_st = e, output_names_st = [''boxes'', ''scores'']\<rparr>"

section \<open>Auxiliary facts\<close>

subsection \<open>Dicts\<close>

lemma update_vals:
  "P v \<Longrightarrow> list_all P (map snd d) \<Longrightarrow> list_all P (map snd (AList.update k v d))"
  by (induction d) auto

lemma map_of_vals:
  "map_of d k = Some v \<Longrightarrow> list_all P (map snd d) \<Longrightarrow> P v"
  by (induction d) (auto split: if_splits)

lemma update_present_keys:
  "map_of d k = Some v \<Longrightarrow> map fst (AList.update k v' d) = map fst d"
  by (induction d) (auto split: if_splits)

lemma fold_update_keys:
  "set (map fst (fold (\<lambda>(k, v) d. AList.update k v d) ps d)) = set (map fst ps) \<union> set (map fst d)"
  by (induction ps arbitrary: d) (auto simp: AList.dom_update split: prod.splits)

lemma fold_update_distinct:
  "distinct (map fst d) \<Longrightarrow> distinct (map fst (fold (\<lambda>(k, v) d. AList.update k v d) ps d))"
  by (induction ps arbitrary: d) (auto simp: AList.distinct_update split: prod.splits)

lemma fold_update_vals:
  "list_all P (map snd ps) \<Longrightarrow> list_all P (map snd d) \<Longrightarrow>
   list_all P (map snd (fold (\<lambda>(k, v) d. AList.update k v d) ps d))"
  by (induction ps arbitrary: d) (auto simp: update_vals split: prod.splits)

lemma dict_of_keys: "set (map fst (dict_of ps)) = set (map fst ps)"
  using fold_update_keys [of ps "[]"] by (simp add: dict_of_def)

lemma dict_of_distinct: "distinct (map fst (dict_of ps))"
  using fold_update_distinct [of "[]" ps] by (simp add: dict_of_def)

lemma dict_of_vals: "list_all P (map snd ps) \<Longrightarrow> list_all P (map snd (dict_of ps))"
  using fold_update_vals [of P ps "[]"] by (simp add: dict_of_def)

subsection \<open>Validation\<close>

lemma check_inputs_Inr:
  "check_inputs b ts = Inr u \<Longrightarrow> list_all (\<lambda>t. size0 t = Inr b \<and> device t = ''cpu'') ts"
  by (induction ts) (auto split: sum.splits if_splits)

subsection \<open>The accumulator keeps its keys and the length of its slots\<close>

lemma store_results_keys:
  "store_results n names result i outs = Inr outs' \<Longrightarrow> map fst outs' = map fst outs"
proof (induction names arbitrary: outs)
  case Nil
  then show ?case by simp
next
  case (Cons name names)
  from Cons.prems obtain out slots where
    o: "map_of result name = Some out" and sl: "map_of outs name = Some slots" and
    rest: "store_results n names result i
             (AList.update name (slots[i := Some (from_numpy (np_array n out))]) outs) = Inr outs'"
    by (auto split: option.splits if_splits)
  from Cons.IH [OF rest] sl show ?case
    by (simp add: update_present_keys)
qed

lemma store_results_lengths:
  "store_results n names result i outs = Inr outs' \<Longrightarrow>
   list_all (\<lambda>sl. length sl = b) (map snd outs) \<Longrightarrow>
   list_all (\<lambda>sl. length sl = b) (map snd outs')"
proof (induction names arbitrary: outs)
  case Nil
  then show ?case by simp
next
  case (Cons name names)
  from Cons.prems(1) obtain out slots where
    o: "map_of result name = Some out" and sl: "map_of outs name = Some slots" and
    rest: "store_results n names result i
             (AList.update name (slots[i := Some (from_numpy (np_array n out))]) outs) = Inr outs'"
    by (auto split: option.splits if_splits)
  from sl Cons.prems(2) have "length slots = b"
    by (rule map_of_vals)
  then have "list_all (\<lambda>sl. length sl = b)
     (map snd (AList.update name (slots[i := Some (from_numpy (np_array n out))]) outs))"
    using Cons.prems(2) by (intro update_vals) simp_all
  with Cons.IH [OF rest] show ?case .
qed

lemma run_batch_keys_lengths:
  "run_batch n names inputs ids outs s = (Inr outs', s') \<Longrightarrow>
   map fst outs' = map fst outs \<and>
   (list_all (\<lambda>sl. length sl = b) (map snd outs) \<longrightarrow>
    list_all (\<lambda>sl. length sl = b) (map snd outs'))"
proof (induction ids arbitrary: outs s)
  case Nil
  then show ?case by simp
next
  case (Cons i ids)
  from Cons.prems obtain result outs1 where
    st: "store_results n names result i outs = Inr outs1" and
    rest: "run_batch n names inputs ids outs1
             (s\<lparr>extractors_created := Suc (extractors_created s)\<rparr>) = (Inr outs', s')"
    by (auto simp: Let_def split: sum.splits)
  from Cons.IH [OF rest] store_results_keys [OF st] store_results_lengths [OF st]
  show ?case by simp
qed


lemma run_batch_lengths:
  "run_batch n names inputs ids outs s = (Inr outs', s') \<Longrightarrow>
   list_all (\<lambda>sl. length sl = b) (map snd outs) \<Longrightarrow>
   list_all (\<lambda>sl. length sl = b) (map snd outs')"
  using run_batch_keys_lengths by blast

subsection \<open>Stacking\<close>

lemma list_all2_right:
  "list_all2 P xs ys \<Longrightarrow> y \<in> set ys \<Longrightarrow> \<exists>x\<in>set xs. P x y"
  by (induction rule: list_all2_induct) auto

lemma those_length: "those xs = Some ys \<Longrightarrow> length ys = length xs"
  by (induction xs arbitrary: ys) (auto split: option.splits)

lemma stack_size0: "stack slots = Inr t \<Longrightarrow> size0 t = Inr (length slots)"
  by (auto simp: stack_def size0_def split: option.splits list.splits if_splits dest: those_length)

lemma stack_outputs_Inr:
  "stack_outputs outs = Inr r \<Longrightarrow>
   map fst r = map fst outs \<and> list_all2 (\<lambda>p q. stack (snd p) = Inr (snd q)) outs r"
proof (induction outs arbitrary: r)
  case Nil
  then show ?case by simp
next
  case (Cons p outs)
  obtain name sl where p: "p = (name, sl)" by (cases p)
  from Cons.prems p obtain t r' where
    "stack sl = Inr t" "stack_outputs outs = Inr r'" "r = (name, t) # r'"
    by (auto split: sum.splits)
  with Cons.IH [of r'] p show ?case by simp
qed

subsection \<open>The result does not depend on the extractor count\<close>

lemma run_batch_world_indep:
  "fst (run_batch n names inputs ids outs s) = fst (run_batch n names inputs ids outs s')"
proof (induction ids arbitrary: outs s s')
  case Nil
  show ?case by simp
next
  case (Cons i ids)
  show ?case
  proof (cases "set_inputs n (create_extractor n) inputs i")
    case Inl
    then show ?thesis by (simp add: Let_def)
  next
    case (Inr ex1)
    note ex1 = this
    show ?thesis
    proof (cases "ncnn_execute n ex1 names []")
      case Inl
      with ex1 show ?thesis by (simp add: Let_def)
    next
      case (Inr result)
      note res = this
      show ?thesis
      proof (cases "store_results n names result i outs")
        case Inl
        with ex1 res show ?thesis by (simp add: Let_def)
      next
        case (Inr outs1)
        with ex1 res show ?thesis
          by (simp add: Let_def
                Cons.IH [of outs1 "s\<lparr>extractors_created := Suc (extractors_created s)\<rparr>"
                           "s'\<lparr>extractors_created := Suc (extractors_created s')\<rparr>"])
      qed
    qed
  qed
qed

lemma forward_world_indep:
  "fst (forward self inputs s) = fst (forward self inputs s')"
proof (cases "map snd inputs")
  case Nil
  then show ?thesis by (simp add: forward_def)
next
  case (Cons first rest)
  note c = this
  show ?thesis
  proof (cases "size0 first")
    case Inl
    with c show ?thesis by (simp add: forward_def)
  next
    case (Inr b)
    note b = this
    show ?thesis
    proof (cases "check_inputs b rest")
      case Inl
      with c b show ?thesis by (simp add: forward_def)
    next
      case (Inr u)
      define outs0 where
        "outs0 = dict_of (map (\<lambda>name. (name, replicate b (None :: 'a tensor option)))
                            (output_names self))"
      have eq: "fst (run_batch (net self) (output_names self) inputs [0..<b] outs0 s)
              = fst (run_batch (net self) (output_names self) inputs [0..<b] outs0 s')"
        by (rule run_batch_world_indep)
      obtain r1 s1 where
        r1: "run_batch (net self) (output_names self) inputs [0..<b] outs0 s = (r1, s1)"
        by (cases "run_batch (net self) (output_names self) inputs [0..<b] outs0 s")
      obtain r2 s2 where
        r2: "run_batch (net self) (output_names self) inputs [0..<b] outs0 s' = (r2, s2)"
        by (cases "run_batch (net self) (output_names self) inputs [0..<b] outs0 s'")
      from eq r1 r2 have "r1 = r2" by simp
      with c b Inr r1 r2 show ?thesis
        by (simp add: forward_def Let_def outs0_def [symmetric] split: sum.split)
    qed
  qed
qed

subsection \<open>What a returning call went through\<close>

lemma forward_Inr_cases:
  assumes "forward self inputs s = (Inr outs, s')"
  obtains first rest b outs1 where
    "map snd inputs = first # rest"
    "size0 first = Inr b"
    "check_inputs b rest = Inr ()"
    "run_batch (net self) (output_names self) inputs [0..<b]
       (dict_of (map (\<lambda>name. (name, replicate b None)) (output_names self))) s = (Inr outs1, s')"
    "stack_outputs outs1 = Inr outs"
  using assms
  by (auto simp: forward_def Let_def split: list.splits sum.splits prod.splits)

subsection \<open>One sample stored and stacked\<close>

lemma ncnn_execute_keys:
  "ncnn_execute n ex names r = Inr result \<Longrightarrow>
   (\<forall>k\<in>set names. map_of result k \<noteq> None) \<and> (\<forall>k. map_of r k \<noteq> None \<longrightarrow> map_of result k \<noteq> None)"
proof (induction names arbitrary: ex r)
  case Nil
  then show ?case by simp
next
  case (Cons name names)
  obtain out_ret out ex' where e: "ex_extract n ex name = ((out_ret, out), ex')"
    by (metis prod.exhaust)
  with Cons.prems have rest: "ncnn_execute n ex' names (AList.update name out r) = Inr result"
    by (simp split: if_splits)
  from Cons.IH [OF rest] show ?case
    by (auto simp: AList.update_conv')
qed

lemma fold_update_const_map_of:
  "map_of (fold (\<lambda>(k, v) d. AList.update k v d) (map (\<lambda>k. (k, c)) names) d) k =
     (if k \<in> set names then Some c else map_of d k)"
  by (induction names arbitrary: d) (auto simp: AList.update_conv')

lemma dict_of_const_map_of:
  "map_of (dict_of (map (\<lambda>k. (k, c)) names)) k = (if k \<in> set names then Some c else None)"
  by (simp add: dict_of_def fold_update_const_map_of)

lemma store_results_ok:
  assumes "\<forall>k\<in>set names. map_of result k \<noteq> None"
    and "\<forall>k\<in>set names. \<exists>sl. map_of outs k = Some sl \<and> i < length sl"
  shows "\<exists>outs'. store_results n names result i outs = Inr outs' \<and>
           (\<forall>k sl out. k \<in> set names \<longrightarrow> map_of outs k = Some sl \<longrightarrow> map_of result k = Some out \<longrightarrow>
               map_of outs' k = Some (sl[i := Some (from_numpy (np_array n out))])) \<and>
           (\<forall>k. k \<notin> set names \<longrightarrow> map_of outs' k = map_of outs k)"
  using assms
proof (induction names arbitrary: outs)
  case Nil
  then show ?case by simp
next
  case (Cons name names)
  from Cons.prems obtain out slots where
    o: "map_of result name = Some out" and sl: "map_of outs name = Some slots" "i < length slots"
    by auto
  define outs1 where "outs1 = AList.update name (slots[i := Some (from_numpy (np_array n out))]) outs"
  have m1: "map_of outs1 = (map_of outs)(name \<mapsto> slots[i := Some (from_numpy (np_array n out))])"
    by (simp add: outs1_def AList.update_conv')
  have p1: "\<forall>k\<in>set names. map_of result k \<noteq> None" using Cons.prems(1) by simp
  have p2: "\<forall>k\<in>set names. \<exists>sl. map_of outs1 k = Some sl \<and> i < length sl"
    using Cons.prems(2) sl by (auto simp: m1)
  from Cons.IH [OF p1 p2] obtain outs' where
    st: "store_results n names result i outs1 = Inr outs'" and
    a: "\<forall>k sl out. k \<in> set names \<longrightarrow> map_of outs1 k = Some sl \<longrightarrow> map_of result k = Some out \<longrightarrow>
               map_of outs' k = Some (sl[i := Some (from_numpy (np_array n out))])" and
    b: "\<forall>k. k \<notin> set names \<longrightarrow> map_of outs' k = map_of outs1 k"
    by blast
  have "store_results n (name # names) result i outs = Inr outs'"
    using o sl st by (simp add: outs1_def)
  moreover have "\<forall>k sl out. k \<in> set (name # names) \<longrightarrow> map_of outs k = Some sl \<longrightarrow> map_of result k = Some out \<longrightarrow>
               map_of outs' k = Some (sl[i := Some (from_numpy (np_array n out))])"
  proof (intro allI impI)
    fix k sl' out'
    assume k: "k \<in> set (name # names)" and s': "map_of outs k = Some sl'" and o': "map_of result k = Some out'"
    show "map_of outs' k = Some (sl'[i := Some (from_numpy (np_array n out'))])"
    proof (cases "k = name")
      case True
      with s' o' sl o have eq: "sl' = slots" "out' = out" by simp_all
      show ?thesis
      proof (cases "name \<in> set names")
        case True
        with a [rule_format, of name "slots[i := Some (from_numpy (np_array n out))]" out] o
        show ?thesis using \<open>k = name\<close> eq by (simp add: m1)
      next
        case False
        with b have "map_of outs' name = map_of outs1 name" by simp
        then show ?thesis using \<open>k = name\<close> eq by (simp add: m1)
      qed
    next
      case False
      with k have "k \<in> set names" by simp
      moreover from False s' have "map_of outs1 k = Some sl'" by (simp add: m1)
      ultimately show ?thesis using a o' by blast
    qed
  qed
  moreover have "\<forall>k. k \<notin> set (name # names) \<longrightarrow> map_of outs' k = map_of outs k"
    using b by (simp add: m1)
  ultimately show ?case by blast
qed

lemma stack_single: "stack [Some v] = Inr \<lparr>shape = 1 # shape v, data = data v, device = device v\<rparr>"
  by (simp add: stack_def)

lemma stack_outputs_ok:
  "list_all (\<lambda>sl. \<exists>t. stack sl = Inr t) (map snd outs) \<Longrightarrow> \<exists>r. stack_outputs outs = Inr r"
  by (induction outs) auto

lemma stack_outputs_map_of:
  "stack_outputs outs = Inr r \<Longrightarrow> map_of outs k = Some sl \<Longrightarrow>
   \<exists>t. stack sl = Inr t \<and> map_of r k = Some t"
proof (induction outs arbitrary: r)
  case Nil
  then show ?case by simp
next
  case (Cons p outs)
  obtain name sl0 where p: "p = (name, sl0)" by (cases p)
  from Cons.prems(1) p obtain t r' where
    *: "stack sl0 = Inr t" "stack_outputs outs = Inr r'" "r = (name, t) # r'"
    by (auto split: sum.splits)
  show ?case
  proof (cases "k = name")
    case True
    with Cons.prems(2) p * show ?thesis by simp
  next
    case False
    with Cons.prems(2) p have "map_of outs k = Some sl" by simp
    from Cons.IH [OF *(2) this] False * show ?thesis by simp
  qed
qed

subsection \<open>The whole batch: what is returned, and where a failing sample stops the call\<close>

lemma slot_fill:
  "(xs @ replicate (Suc m) None)[length xs := y] = (xs @ [y]) @ replicate m None"
  by (simp add: list_update_append)

lemma run_batch_accumulates:
  assumes per_sample: "\<forall>i<j. \<exists>ex. set_inputs n (create_extractor n) inputs i = Inr ex \<and>
                          ncnn_execute n ex names [] = Inr (res i)"
    and "k \<le> j" and "j \<le> b"
    and "\<forall>name\<in>set names. map_of acc name =
           Some (map (\<lambda>i. map_option (\<lambda>out. from_numpy (np_array n out)) (map_of (res i) name)) [0..<k]
                 @ replicate (b - k) None)"
  shows "\<exists>acc'. run_batch n names inputs [k..<j] acc s =
            (Inr acc', s\<lparr>extractors_created := extractors_created s + (j - k)\<rparr>) \<and>
          map fst acc' = map fst acc \<and>
          (\<forall>name\<in>set names. map_of acc' name =
             Some (map (\<lambda>i. map_option (\<lambda>out. from_numpy (np_array n out)) (map_of (res i) name)) [0..<j]
                   @ replicate (b - j) None))"
  using assms(2,4)
proof (induction "j - k" arbitrary: k acc s)
  case 0
  then have "k = j" by simp
  with "0.prems" show ?case by simp
next
  case (Suc m)
  then have kj: "k < j" and m: "m = j - Suc k" by simp_all
  with \<open>j \<le> b\<close> obtain m' where m': "b - k = Suc m'" "b - Suc k = m'"
    by (cases "b - k") simp_all
  let ?slot = "\<lambda>i name. map_option (\<lambda>out. from_numpy (np_array n out)) (map_of (res i) name)"
  from per_sample kj obtain ex where
    bind: "set_inputs n (create_extractor n) inputs k = Inr ex" and
    exec: "ncnn_execute n ex names [] = Inr (res k)" by blast
  from exec have res: "\<forall>name\<in>set names. map_of (res k) name \<noteq> None"
    by (rule ncnn_execute_keys [THEN conjunct1])
  have slots: "\<forall>name\<in>set names. \<exists>sl. map_of acc name = Some sl \<and> k < length sl"
    using Suc.prems(2) m' by auto
  from store_results_ok [OF res slots, of n] obtain acc1 where
    st: "store_results n names (res k) k acc = Inr acc1" and
    upd: "\<forall>name sl out. name \<in> set names \<longrightarrow> map_of acc name = Some sl \<longrightarrow>
             map_of (res k) name = Some out \<longrightarrow>
             map_of acc1 name = Some (sl[k := Some (from_numpy (np_array n out))])"
    by blast
  have inv1: "\<forall>name\<in>set names. map_of acc1 name =
                Some (map (\<lambda>i. ?slot i name) [0..<Suc k] @ replicate (b - Suc k) None)"
  proof
    fix name assume nm: "name \<in> set names"
    with res obtain out where o: "map_of (res k) name = Some out" by auto
    from Suc.prems(2) nm m' have
      a: "map_of acc name = Some (map (\<lambda>i. ?slot i name) [0..<k] @ replicate (Suc m') None)"
      by simp
    from upd nm a o have "map_of acc1 name =
        Some ((map (\<lambda>i. ?slot i name) [0..<k] @ replicate (Suc m') None)
                [k := Some (from_numpy (np_array n out))])" by blast
    also have "(map (\<lambda>i. ?slot i name) [0..<k] @ replicate (Suc m') None)
                [k := Some (from_numpy (np_array n out))] =
               (map (\<lambda>i. ?slot i name) [0..<k] @ [Some (from_numpy (np_array n out))])
                 @ replicate m' None"
      using slot_fill [of "map (\<lambda>i. ?slot i name) [0..<k]" m'] by simp
    finally show "map_of acc1 name =
        Some (map (\<lambda>i. ?slot i name) [0..<Suc k] @ replicate (b - Suc k) None)"
      using o m' by simp
  qed
  from kj have "Suc k \<le> j" by simp
  from Suc.hyps(1) [OF m this inv1,
      of "s\<lparr>extractors_created := Suc (extractors_created s)\<rparr>"]
  obtain acc' where
    run: "run_batch n names inputs [Suc k..<j] acc1
            (s\<lparr>extractors_created := Suc (extractors_created s)\<rparr>) =
          (Inr acc', s\<lparr>extractors_created := Suc (extractors_created s) + (j - Suc k)\<rparr>)" and
    keys: "map fst acc' = map fst acc1" and
    fin: "\<forall>name\<in>set names. map_of acc' name =
            Some (map (\<lambda>i. ?slot i name) [0..<j] @ replicate (b - j) None)"
    by auto
  have "run_batch n names inputs [k..<j] acc s =
          (Inr acc', s\<lparr>extractors_created := extractors_created s + (j - k)\<rparr>)"
    using kj bind exec st run by (simp add: upt_conv_Cons Let_def)
  moreover from keys store_results_keys [OF st] have "map fst acc' = map fst acc" by simp
  ultimately show ?case using fin by blast
qed

lemma run_batch_append:
  "run_batch n names inputs (ids1 @ ids2) acc s =
     (case run_batch n names inputs ids1 acc s of
        (Inl e, s') \<Rightarrow> (Inl e, s')
      | (Inr acc', s') \<Rightarrow> run_batch n names inputs ids2 acc' s')"
  by (induction ids1 arbitrary: acc s) (simp_all add: Let_def split: sum.split)

lemma ncnn_execute_Inl:
  "ncnn_execute n ex names r = Inl e \<Longrightarrow>
   \<exists>out. e = AssertionError (''Failed to extract output : '' @ mat_str n out @ ''.'')"
proof (induction names arbitrary: ex r)
  case Nil
  then show ?case by simp
next
  case (Cons name names)
  obtain out_ret out ex' where x: "ex_extract n ex name = ((out_ret, out), ex')"
    by (metis prod.exhaust)
  show ?case
  proof (cases "out_ret = 0")
    case True
    with Cons.prems x have "ncnn_execute n ex' names (AList.update name out r) = Inl e" by simp
    then show ?thesis by (rule Cons.IH)
  next
    case False
    with Cons.prems x show ?thesis by auto
  qed
qed

lemma forward_fails_at_sample:
  assumes inp: "map snd inputs = first # rest"
    and b: "size0 first = Inr b"
    and chk: "check_inputs b rest = Inr ()"
    and j: "j < b"
    and before: "\<forall>i<j. \<exists>ex.
        set_inputs (net self) (create_extractor (net self)) inputs i = Inr ex \<and>
        ncnn_execute (net self) ex (output_names self) [] = Inr (res i)"
    and bind: "set_inputs (net self) (create_extractor (net self)) inputs j = Inr ex"
    and fail: "ncnn_execute (net self) ex (output_names self) [] = Inl e"
  shows "forward self inputs s =
           (Inl e, s\<lparr>extractors_created := extractors_created s + Suc j\<rparr>)"
proof -
  define n where "n = net self"
  define names where "names = output_names self"
  define outs0 where
    "outs0 = dict_of (map (\<lambda>name. (name, replicate b (None :: 'a tensor option))) names)"
  have m0: "\<forall>name\<in>set names. map_of outs0 name =
      Some (map (\<lambda>i. map_option (\<lambda>out. from_numpy (np_array n out)) (map_of (res i) name)) [0..<0]
            @ replicate (b - 0) None)"
    unfolding outs0_def by (simp add: dict_of_const_map_of)
  from before have ps: "\<forall>i<j. \<exists>ex. set_inputs n (create_extractor n) inputs i = Inr ex \<and>
                          ncnn_execute n ex names [] = Inr (res i)"
    unfolding n_def names_def .
  from j have jb: "j \<le> b" by simp
  from run_batch_accumulates [where s = s, OF ps _ jb m0] obtain acc where
    run: "run_batch n names inputs [0..<j] outs0 s =
            (Inr acc, s\<lparr>extractors_created := extractors_created s + j\<rparr>)"
    by auto
  from j have "[0..<b] = [0..<j] @ [j..<b]"
    using upt_add_eq_append [of 0 j "b - j"] by simp
  with j have split: "[0..<b] = [0..<j] @ j # [Suc j..<b]"
    by (simp add: upt_conv_Cons)
  have "run_batch n names inputs [0..<b] outs0 s =
          (Inl e, s\<lparr>extractors_created := extractors_created s + Suc j\<rparr>)"
    unfolding split run_batch_append run
    using bind fail by (simp add: n_def names_def Let_def)
  with inp b chk show ?thesis
    by (simp add: forward_def n_def names_def outs0_def Let_def)
qed

lemma forward_returns_stacked:
  assumes inp: "map snd inputs = first # rest"
    and b: "size0 first = Inr b"
    and chk: "check_inputs b rest = Inr ()"
    and per_sample: "\<forall>i<b. \<exists>ex.
        set_inputs (net self) (create_extractor (net self)) inputs i = Inr ex \<and>
        ncnn_execute (net self) ex (output_names self) [] = Inr (res i)"
    and stackable: "\<forall>name\<in>set (output_names self). \<exists>t.
        stack (map (\<lambda>i. map_option (\<lambda>out. from_numpy (np_array (net self) out))
                            (map_of (res i) name)) [0..<b]) = Inr t"
  shows "\<exists>outs. forward self inputs s =
            (Inr outs, s\<lparr>extractors_created := extractors_created s + b\<rparr>) \<and>
          (\<forall>name\<in>set (output_names self). \<exists>t.
             stack (map (\<lambda>i. map_option (\<lambda>out. from_numpy (np_array (net self) out))
                                 (map_of (res i) name)) [0..<b]) = Inr t \<and>
             map_of outs name = Some t)"
proof -
  define n where "n = net self"
  define names where "names = output_names self"
  define outs0 where
    "outs0 = dict_of (map (\<lambda>name. (name, replicate b (None :: 'a tensor option))) names)"
  let ?slots = "\<lambda>name. map (\<lambda>i. map_option (\<lambda>out. from_numpy (np_array n out))
                                  (map_of (res i) name)) [0..<b]"
  have m0: "\<forall>name\<in>set names. map_of outs0 name =
      Some (map (\<lambda>i. map_option (\<lambda>out. from_numpy (np_array n out)) (map_of (res i) name)) [0..<0]
            @ replicate (b - 0) None)"
    unfolding outs0_def by (simp add: dict_of_const_map_of)
  from per_sample have ps: "\<forall>i<b. \<exists>ex. set_inputs n (create_extractor n) inputs i = Inr ex \<and>
                          ncnn_execute n ex names [] = Inr (res i)"
    unfolding n_def names_def .
  from run_batch_accumulates [where s = s, OF ps _ _ m0] obtain acc where
    run: "run_batch n names inputs [0..<b] outs0 s =
            (Inr acc, s\<lparr>extractors_created := extractors_created s + b\<rparr>)" and
    keys: "map fst acc = map fst outs0" and
    fin: "\<forall>name\<in>set names. map_of acc name = Some (?slots name)"
    by auto
  have dist: "distinct (map fst acc)"
    unfolding keys outs0_def by (rule dict_of_distinct)
  have kset: "set (map fst acc) = set names"
    unfolding keys outs0_def dict_of_keys by (simp add: comp_def)
  have "list_all (\<lambda>sl. \<exists>t. stack sl = Inr t) (map snd acc)"
    unfolding list_all_iff
  proof
    fix sl assume "sl \<in> set (map snd acc)"
    then obtain k where ksl: "(k, sl) \<in> set acc" by auto
    with dist have "map_of acc k = Some sl" by simp
    moreover from ksl kset have "k \<in> set names" by force
    ultimately have "sl = ?slots k" using fin by auto
    with stackable \<open>k \<in> set names\<close> show "\<exists>t. stack sl = Inr t"
      unfolding n_def names_def by simp
  qed
  then obtain r where r: "stack_outputs acc = Inr r"
    using stack_outputs_ok by blast
  have fwd: "forward self inputs s =
      (Inr r, s\<lparr>extractors_created := extractors_created s + b\<rparr>)"
    using inp b chk run r
    by (simp add: forward_def n_def names_def outs0_def Let_def)
  have "\<exists>t. stack (?slots name) = Inr t \<and> map_of r name = Some t"
    if "name \<in> set names" for name
    using stack_outputs_map_of [OF r] fin that by blast
  with fwd show ?thesis
    unfolding n_def names_def by blast
qed

subsection \<open>Failures\<close>

lemma ncnn_execute_failure_message:
  "ex_extract n ex name = ((out_ret, out), ex') \<Longrightarrow> out_ret \<noteq> 0 \<Longrightarrow>
   ncnn_execute n ex (name # names) result =
     Inl (AssertionError (''Failed to extract output : '' @ mat_str n out @ ''.''))"
  by simp

lemma forward_rejects_later_non_cpu:
  assumes "map snd inputs = first # rest" and "t \<in> set rest" and "device t \<noteq> ''cpu''"
  shows "\<exists>e. forward self inputs s = (Inl e, s)"
proof (cases "size0 first")
  case Inl
  with assms(1) show ?thesis by (simp add: forward_def)
next
  case (Inr b)
  show ?thesis
  proof (cases "check_inputs b rest")
    case Inl
    with assms(1) \<open>size0 first = Inr b\<close> show ?thesis by (simp add: forward_def)
  next
    case (Inr u)
    from check_inputs_Inr [OF Inr] assms(2) have "device t = ''cpu''"
      by (simp add: list_all_iff)
    with assms(3) show ?thesis by simp
  qed
qed

lemma stack_outputs_empty_slots:
  "outs \<noteq> [] \<Longrightarrow> list_all (\<lambda>sl. sl = []) (map snd outs) \<Longrightarrow>
   stack_outputs outs = Inl (RuntimeError ''stack expects a non-empty TensorList'')"
  by (cases outs) (auto simp: stack_def)

subsection \<open>Two calls in step\<close>

lemma same_view_deref:
  "same_view inputs s s' \<Longrightarrow> (name, r) \<in> set inputs \<Longrightarrow> deref s r = deref s' r"
  by (force simp: same_view_def deref_def list_all_iff)

lemma same_view_deref_all:
  "same_view inputs s s' \<Longrightarrow> map (deref s) (map snd inputs) = map (deref s') (map snd inputs)"
  by (auto simp: same_view_deref)

lemma set_inputs_st_same:
  assumes det: "deterministic_engine inputs e"
  shows "same_view inputs s s' \<Longrightarrow> set ins \<subseteq> set inputs \<Longrightarrow>
    fst (set_inputs_st e ex ins i s) = fst (set_inputs_st e ex ins i s') \<and>
    same_view inputs (snd (set_inputs_st e ex ins i s)) (snd (set_inputs_st e ex ins i s'))"
proof (induction ins arbitrary: ex s s')
  case Nil
  then show ?case by simp
next
  case (Cons p ins)
  obtain name r where p: "p = (name, r)" by (cases p)
  with Cons.prems have d: "deref s r = deref s' r"
    by (auto intro: same_view_deref)
  show ?case
  proof (cases "select0 (deref s' r) i")
    case (Inl err)
    with p d Cons.prems show ?thesis by simp
  next
    case (Inr sample)
    note sample = this
    from det Cons.prems(1) have
      m: "fst (st_Mat e (numpy sample) s) = fst (st_Mat e (numpy sample) s')"
         "same_view inputs (snd (st_Mat e (numpy sample) s)) (snd (st_Mat e (numpy sample) s'))"
      unfolding deterministic_engine_def by blast+
    obtain r1 s1 where a: "st_Mat e (numpy sample) s = (r1, s1)" by (cases "st_Mat e (numpy sample) s")
    obtain r1' s1' where b: "st_Mat e (numpy sample) s' = (r1', s1')" by (cases "st_Mat e (numpy sample) s'")
    from m a b have r1: "r1' = r1" and sv1: "same_view inputs s1 s1'" by simp_all
    show ?thesis
    proof (cases r1)
      case (Inl err)
      with p d sample a b r1 sv1 show ?thesis by simp
    next
      case (Inr mat)
      from det sv1 have
        i: "fst (st_input e ex name mat s1) = fst (st_input e ex name mat s1')"
           "same_view inputs (snd (st_input e ex name mat s1)) (snd (st_input e ex name mat s1'))"
        unfolding deterministic_engine_def by blast+
      obtain ex1 s2 where c: "st_input e ex name mat s1 = (ex1, s2)" by (cases "st_input e ex name mat s1")
      obtain ex1' s2' where c': "st_input e ex name mat s1' = (ex1', s2')" by (cases "st_input e ex name mat s1'")
      from i c c' have e1: "ex1' = ex1" and sv2: "same_view inputs s2 s2'" by simp_all
      from Cons.prems(2) have "set ins \<subseteq> set inputs" by simp
      from Cons.IH [OF sv2 this, of ex1] p d sample a b r1 Inr c c' e1
      show ?thesis by simp
    qed
  qed
qed

lemma ncnn_execute_st_same:
  assumes det: "deterministic_engine inputs e"
  shows "same_view inputs s s' \<Longrightarrow>
    fst (ncnn_execute_st e ex names result s) = fst (ncnn_execute_st e ex names result s') \<and>
    same_view inputs (snd (ncnn_execute_st e ex names result s))
                     (snd (ncnn_execute_st e ex names result s'))"
proof (induction names arbitrary: ex result s s')
  case Nil
  then show ?case by simp
next
  case (Cons name names)
  from det Cons.prems have
    x: "fst (st_extract e ex name s) = fst (st_extract e ex name s')"
       "same_view inputs (snd (st_extract e ex name s)) (snd (st_extract e ex name s'))"
    unfolding deterministic_engine_def by blast+
  obtain out_ret out ex1 s1 where a: "st_extract e ex name s = (((out_ret, out), ex1), s1)"
    by (metis prod.exhaust)
  obtain q s1' where b: "st_extract e ex name s' = (q, s1')"
    by (cases "st_extract e ex name s'")
  from x a b have q: "q = ((out_ret, out), ex1)" and sv: "same_view inputs s1 s1'" by simp_all
  from det sv have str: "st_mat_str e out s1 = st_mat_str e out s1'"
    unfolding deterministic_engine_def by blast
  show ?case
  proof (cases "out_ret = 0")
    case True
    with Cons.IH [OF sv, of ex1 "AList.update name out result"] a b q show ?thesis by simp
  next
    case False
    with a b q sv str show ?thesis by simp
  qed
qed

lemma run_batch_st_same:
  assumes det: "deterministic_engine inputs e"
  shows "same_view inputs s s' \<Longrightarrow>
    fst (run_batch_st e names inputs ids outputs s) =
    fst (run_batch_st e names inputs ids outputs s') \<and>
    same_view inputs (snd (run_batch_st e names inputs ids outputs s))
                     (snd (run_batch_st e names inputs ids outputs s'))"
proof (induction ids arbitrary: outputs s s')
  case Nil
  then show ?case by simp
next
  case (Cons i ids)
  from det Cons.prems have
    c: "fst (st_create_extractor e s) = fst (st_create_extractor e s')"
       "same_view inputs (snd (st_create_extractor e s)) (snd (st_create_extractor e s'))"
    unfolding deterministic_engine_def by blast+
  obtain ex s1 where a: "st_create_extractor e s = (ex, s1)" by (cases "st_create_extractor e s")
  obtain ex' s1' where a': "st_create_extractor e s' = (ex', s1')"
    by (cases "st_create_extractor e s'")
  from c a a' have ex: "ex' = ex" and sv1: "same_view inputs s1 s1'" by simp_all
  obtain r2 s2 where b: "set_inputs_st e ex inputs i s1 = (r2, s2)"
    by (cases "set_inputs_st e ex inputs i s1")
  obtain r2' s2' where b': "set_inputs_st e ex inputs i s1' = (r2', s2')"
    by (cases "set_inputs_st e ex inputs i s1'")
  from set_inputs_st_same [OF det sv1, of inputs ex i] b b'
  have r2: "r2' = r2" and sv2: "same_view inputs s2 s2'" by simp_all
  show ?case
  proof (cases r2)
    case (Inl err)
    with a a' ex b b' r2 sv2 show ?thesis by simp
  next
    case (Inr ex1)
    note ex1 = this
    obtain r3 s3 where d: "ncnn_execute_st e ex1 names [] s2 = (r3, s3)"
      by (cases "ncnn_execute_st e ex1 names [] s2")
    obtain r3' s3' where d': "ncnn_execute_st e ex1 names [] s2' = (r3', s3')"
      by (cases "ncnn_execute_st e ex1 names [] s2'")
    from ncnn_execute_st_same [OF det sv2, of ex1 names "[]"] d d'
    have r3: "r3' = r3" and sv3: "same_view inputs s3 s3'" by simp_all
    show ?thesis
    proof (cases r3)
      case (Inl err)
      with a a' ex b b' r2 ex1 d d' r3 sv3 show ?thesis by simp
    next
      case (Inr result)
      note result = this
      from det sv3 have conv: "(\<lambda>out. st_np_array e out s3) = (\<lambda>out. st_np_array e out s3')"
        unfolding deterministic_engine_def by blast
      show ?thesis
      proof (cases "store_results_st (\<lambda>out. st_np_array e out s3) names result i outputs")
        case (Inl err)
        with a a' ex b b' r2 ex1 d d' r3 result sv3 conv show ?thesis by simp
      next
        case (Inr outputs1)
        with Cons.IH [OF sv3, of outputs1] a a' ex b b' r2 ex1 d d' r3 result conv
        show ?thesis by simp
      qed
    qed
  qed
qed

lemma forward_st_same:
  assumes det: "deterministic_engine inputs (net_st self)"
    and sv: "same_view inputs s s'"
  shows "fst (forward_st self inputs s) = fst (forward_st self inputs s')"
proof -
  from sv have eq: "map (deref s) (map snd inputs) = map (deref s') (map snd inputs)"
    by (rule same_view_deref_all)
  show ?thesis
  proof (cases "map (deref s') (map snd inputs)")
    case Nil
    with eq show ?thesis by (simp add: forward_st_def)
  next
    case (Cons first rest)
    note c = this
    show ?thesis
    proof (cases "size0 first")
      case Inl
      with c eq show ?thesis by (simp add: forward_st_def)
    next
      case (Inr b)
      note b = this
      show ?thesis
      proof (cases "check_inputs b rest")
        case Inl
        with c b eq show ?thesis by (simp add: forward_st_def)
      next
        case (Inr u)
        define outs0 where
          "outs0 = dict_of (map (\<lambda>name. (name, replicate b (None :: 'a tensor option)))
                              (output_names_st self))"
        obtain r1 s1 where
          r1: "run_batch_st (net_st self) (output_names_st self) inputs [0..<b] outs0 s = (r1, s1)"
          by (cases "run_batch_st (net_st self) (output_names_st self) inputs [0..<b] outs0 s")
        obtain r2 s2 where
          r2: "run_batch_st (net_st self) (output_names_st self) inputs [0..<b] outs0 s' = (r2, s2)"
          by (cases "run_batch_st (net_st self) (output_names_st self) inputs [0..<b] outs0 s'")
        from run_batch_st_same [OF det sv, of "output_names_st self" "[0..<b]" outs0] r1 r2
        have "r1 = r2" by simp
        with c b Inr eq r1 r2 show ?thesis
          by (simp add: forward_st_def Let_def outs0_def [symmetric] split: sum.split)
      qed
    qed
  qed
qed

subsection \<open>A call leaves what a quiet engine leaves\<close>

lemma same_view_refl: "same_view inputs s s"
  by (simp add: same_view_def list_all_iff)

lemma same_view_trans: "same_view inputs s t \<Longrightarrow> same_view inputs t u \<Longrightarrow> same_view inputs s u"
  by (simp add: same_view_def list_all_iff)

lemma set_inputs_st_quiet:
  assumes q: "quiet_engine inputs e"
  shows "same_view inputs s (snd (set_inputs_st e ex ins i s))"
proof (induction ins arbitrary: ex s)
  case Nil
  show ?case by (simp add: same_view_refl)
next
  case (Cons p ins)
  obtain name r where p: "p = (name, r)" by (cases p)
  show ?case
  proof (cases "select0 (deref s r) i")
    case Inl
    with p show ?thesis by (simp add: same_view_refl)
  next
    case (Inr sample)
    obtain r1 s1 where a: "st_Mat e (numpy sample) s = (r1, s1)"
      by (cases "st_Mat e (numpy sample) s")
    from q have "same_view inputs s (snd (st_Mat e (numpy sample) s))"
      unfolding quiet_engine_def by blast
    with a have v1: "same_view inputs s s1" by simp
    show ?thesis
    proof (cases r1)
      case Inl
      with p Inr a v1 show ?thesis by simp
    next
      case (Inr mat)
      obtain ex1 s2 where c: "st_input e ex name mat s1 = (ex1, s2)"
        by (cases "st_input e ex name mat s1")
      from q have "same_view inputs s1 (snd (st_input e ex name mat s1))"
        unfolding quiet_engine_def by blast
      with c have "same_view inputs s1 s2" by simp
      with v1 have "same_view inputs s s2" by (rule same_view_trans)
      from this Cons.IH [of s2 ex1] have "same_view inputs s (snd (set_inputs_st e ex1 ins i s2))"
        by (rule same_view_trans)
      with p \<open>select0 (deref s r) i = Inr sample\<close> a Inr c show ?thesis by simp
    qed
  qed
qed

lemma ncnn_execute_st_quiet:
  assumes q: "quiet_engine inputs e"
  shows "same_view inputs s (snd (ncnn_execute_st e ex names result s))"
proof (induction names arbitrary: ex result s)
  case Nil
  show ?case by (simp add: same_view_refl)
next
  case (Cons name names)
  obtain out_ret out ex1 s1 where a: "st_extract e ex name s = (((out_ret, out), ex1), s1)"
    by (metis prod.exhaust)
  from q have "same_view inputs s (snd (st_extract e ex name s))"
    unfolding quiet_engine_def by blast
  with a have v1: "same_view inputs s s1" by simp
  from v1 Cons.IH [of s1 ex1 "AList.update name out result"]
  have "same_view inputs s (snd (ncnn_execute_st e ex1 names (AList.update name out result) s1))"
    by (rule same_view_trans)
  with a v1 show ?case by simp
qed

lemma run_batch_st_quiet:
  assumes q: "quiet_engine inputs e"
  shows "same_view inputs s (snd (run_batch_st e names inputs ids outputs s))"
proof (induction ids arbitrary: outputs s)
  case Nil
  show ?case by (simp add: same_view_refl)
next
  case (Cons i ids)
  obtain ex s1 where a: "st_create_extractor e s = (ex, s1)" by (cases "st_create_extractor e s")
  from q have "same_view inputs s (snd (st_create_extractor e s))"
    unfolding quiet_engine_def by blast
  with a have v1: "same_view inputs s s1" by simp
  obtain r2 s2 where b: "set_inputs_st e ex inputs i s1 = (r2, s2)"
    by (cases "set_inputs_st e ex inputs i s1")
  from set_inputs_st_quiet [OF q, of s1 ex inputs i] b have "same_view inputs s1 s2" by simp
  with v1 have v2: "same_view inputs s s2" by (rule same_view_trans)
  show ?case
  proof (cases r2)
    case Inl
    with a b v2 show ?thesis by simp
  next
    case (Inr ex1)
    note ex1 = this
    obtain r3 s3 where d: "ncnn_execute_st e ex1 names [] s2 = (r3, s3)"
      by (cases "ncnn_execute_st e ex1 names [] s2")
    from ncnn_execute_st_quiet [OF q, of s2 ex1 names "[]"] d have "same_view inputs s2 s3" by simp
    with v2 have v3: "same_view inputs s s3" by (rule same_view_trans)
    show ?thesis
    proof (cases r3)
      case Inl
      with a b ex1 d v3 show ?thesis by simp
    next
      case (Inr result)
      from v3 Cons.IH [of s3] have "\<And>outs. same_view inputs s
          (snd (run_batch_st e names inputs ids outs s3))"
        by (rule same_view_trans)
      with a b ex1 d Inr v3 show ?thesis by (simp split: sum.split)
    qed
  qed
qed

lemma forward_st_quiet:
  assumes q: "quiet_engine inputs (net_st self)"
  shows "same_view inputs s (snd (forward_st self inputs s))"
proof (cases "map (deref s) (map snd inputs)")
  case Nil
  then show ?thesis by (simp add: forward_st_def same_view_refl)
next
  case (Cons first rest)
  note c = this
  show ?thesis
  proof (cases "size0 first")
    case Inl
    with c show ?thesis by (simp add: forward_st_def same_view_refl)
  next
    case (Inr b)
    note b = this
    show ?thesis
    proof (cases "check_inputs b rest")
      case Inl
      with c b show ?thesis by (simp add: forward_st_def same_view_refl)
    next
      case (Inr u)
      define outs0 where
        "outs0 = dict_of (map (\<lambda>name. (name, replicate b (None :: 'a tensor option)))
                            (output_names_st self))"
      obtain r1 s1 where
        r1: "run_batch_st (net_st self) (output_names_st self) inputs [0..<b] outs0 s = (r1, s1)"
        by (cases "run_batch_st (net_st self) (output_names_st self) inputs [0..<b] outs0 s")
      from run_batch_st_quiet [OF q, of s "output_names_st self" "[0..<b]" outs0] r1
      have "same_view inputs s s1" by simp
      with c b Inr r1 show ?thesis
        by (simp add: forward_st_def Let_def outs0_def [symmetric] split: sum.split)
    qed
  qed
qed

lemma forward_st_twice:
  assumes "deterministic_engine inputs (net_st self)" and "quiet_engine inputs (net_st self)"
  shows "fst (forward_st self inputs (snd (forward_st self inputs s))) =
         fst (forward_st self inputs s)"
  using forward_st_same [OF assms(1) forward_st_quiet [OF assms(2)], of s] by simp

subsection \<open>An engine that does not touch the process\<close>

lemma store_results_st_np_array:
  "store_results_st (np_array n) names result i outs = store_results n names result i outs"
  by (induction names arbitrary: outs) (simp_all split: option.split)

lemma set_inputs_st_in_process:
  "set_inputs_st (in_process n) ex ins i s =
     (set_inputs n ex (map (\<lambda>(name, r). (name, deref s r)) ins) i, s)"
  by (induction ins arbitrary: ex) (auto simp: in_process_def split: sum.split)

lemma ncnn_execute_st_in_process:
  "ncnn_execute_st (in_process n) ex names result s = (ncnn_execute n ex names result, s)"
  by (induction names arbitrary: ex result) (auto simp: in_process_def split: prod.split)

lemma run_batch_st_in_process:
  "run_batch_st (in_process n) names ins ids outs s =
     (fst (run_batch n names (map (\<lambda>(name, r). (name, deref s r)) ins) ids outs w), s)"
proof (induction ids arbitrary: outs w)
  case Nil
  show ?case by simp
next
  case (Cons i ids)
  have c: "st_create_extractor (in_process n) s = (create_extractor n, s)"
    and a: "\<And>m. st_np_array (in_process n) m s = np_array n m"
    by (simp_all add: in_process_def)
  show ?case
    by (simp add: c a set_inputs_st_in_process ncnn_execute_st_in_process
          store_results_st_np_array Cons.IH Let_def split: sum.split)
qed

lemma forward_st_in_process:
  "forward_st \<lparr>net_st = in_process n, output_names_st = names\<rparr> ins s =
     (fst (forward \<lparr>net = n, output_names = names\<rparr>
             (map (\<lambda>(name, r). (name, deref s r)) ins) w), s)"
proof -
  define ins' where "ins' = map (\<lambda>(name, r). (name, deref s r)) ins"
  have m: "map (deref s) (map snd ins) = map snd ins'"
    unfolding ins'_def by (induction ins) auto
  show ?thesis
  proof (cases "map snd ins'")
    case Nil
    with m show ?thesis by (simp add: forward_st_def forward_def ins'_def [symmetric])
  next
    case (Cons first rest)
    note c = this
    show ?thesis
    proof (cases "size0 first")
      case Inl
      with c m show ?thesis by (simp add: forward_st_def forward_def ins'_def [symmetric])
    next
      case (Inr b)
      note b = this
      show ?thesis
      proof (cases "check_inputs b rest")
        case Inl
        with c b m show ?thesis by (simp add: forward_st_def forward_def ins'_def [symmetric])
      next
        case (Inr u)
        define outs0 where
          "outs0 = dict_of (map (\<lambda>name. (name, replicate b (None :: 'a tensor option))) names)"
        obtain r w' where r: "run_batch n names ins' [0..<b] outs0 w = (r, w')"
          by (cases "run_batch n names ins' [0..<b] outs0 w")
        have "run_batch_st (in_process n) names ins [0..<b] outs0 s = (r, s)"
          using run_batch_st_in_process [of n names ins "[0..<b]" outs0 s w] r
          by (simp add: ins'_def)
        with c b Inr m r show ?thesis
          by (simp add: forward_st_def forward_def ins'_def [symmetric] Let_def
                outs0_def [symmetric] split: sum.split)
      qed
    qed
  qed
qed

lemma in_process_deterministic: "deterministic_engine inputs (in_process n)"
  by (simp add: deterministic_engine_def in_process_def)

subsection \<open>Runs of the concrete engine\<close>

lemmas demo_defs =
  demo_wrapper_def demo_inputs_def demo_outputs_def mixed_inputs_def
  one_inputs_def cuda_inputs_def cuda_second_inputs_def empty_batch_inputs_def
  named_wrapper_def base_init_def
  demo_net_def demo_extract_def failing_net_def world0_def cpu_tensor_def cuda_tensor_def
  forward_def size0_def select0_def numpy_def from_numpy_def stack_def dict_of_def Let_def

lemma init_explicit_names: "init n (Some names) = Inr (named_wrapper n names)"
  by (simp add: init_def named_wrapper_def)

lemma demo_forward:
  "forward demo_wrapper demo_inputs world0 = (Inr demo_outputs, \<lparr>extractors_created = 2\<rparr>)"
  by (simp add: demo_defs upt_rec eval_nat_numeral)

lemma forward_returns_stacked_demo:
  "\<exists>outs. forward demo_wrapper demo_inputs world0 = (Inr outs, \<lparr>extractors_created = 2\<rparr>) \<and>
      map_of outs ''boxes'' = Some (cpu_tensor [2, 2] [1, 2, 3, 4]) \<and>
      map_of outs ''scores'' = Some (cpu_tensor [2, 1] [7, 7])"
  using forward_returns_stacked [of demo_inputs "cpu_tensor [2, 2] [1, 2, 3, 4]" "[]" 2 demo_wrapper
     "\<lambda>i. [(''boxes'', ([2], [[1, 2], [3, 4]] ! i)), (''scores'', ([1], [7]))]" world0]
  by (simp add: demo_defs upt_rec eval_nat_numeral less_Suc_eq)

lemma one_bind:
  "set_inputs (net demo_wrapper) (create_extractor (net demo_wrapper)) one_inputs 0 =
     Inr [(''input'', ([2], [3, 4]))]"
  by (simp add: demo_defs)

lemma one_exec:
  "ncnn_execute (net demo_wrapper) [(''input'', ([2], [3, 4]))] (output_names demo_wrapper) [] =
     Inr [(''boxes'', ([2], [3, 4])), (''scores'', ([1], [7]))]"
  by (simp add: demo_defs)

lemmas st_defs =
  caching_engine_def caching_extract_def peeking_engine_def counting_engine_def
  demo_refs_def process0_def process1_def demo_wrapper_st_def workspace_def
  forward_st_def deref_def size0_def select0_def numpy_def from_numpy_def stack_def
  dict_of_def Let_def cpu_tensor_def

lemma caching_engine_deterministic: "deterministic_engine demo_refs caching_engine"
  by (auto simp: deterministic_engine_def same_view_def caching_engine_def caching_extract_def
        demo_refs_def workspace_def split: option.splits)

lemma caching_engine_quiet: "quiet_engine demo_refs caching_engine"
  by (auto simp: quiet_engine_def same_view_def caching_engine_def caching_extract_def
        demo_refs_def workspace_def split: option.splits)

lemma caching_forward:
  "fst (forward_st (demo_wrapper_st caching_engine) demo_refs process0) =
     Inr [(''boxes'', cpu_tensor [2, 2] [1, 2, 3, 4]), (''scores'', cpu_tensor [2, 1] [7, 7])]"
  by (simp add: st_defs upt_rec eval_nat_numeral)

lemma caching_forward_view:
  "same_view demo_refs process0
     (snd (forward_st (demo_wrapper_st caching_engine) demo_refs process0))"
  by (simp add: same_view_def st_defs upt_rec eval_nat_numeral)

lemma caching_forward_changes_memory:
  "storage (snd (forward_st (demo_wrapper_st caching_engine) demo_refs process0)) workspace = [7]
   \<and> storage process0 workspace = []"
  by (simp add: st_defs upt_rec eval_nat_numeral)

lemma peeking_engine_differs:
  "same_view demo_refs process0 process1 \<and>
   fst (forward_st (demo_wrapper_st peeking_engine) demo_refs process0) \<noteq>
   fst (forward_st (demo_wrapper_st peeking_engine) demo_refs process1)"
  by (simp add: same_view_def st_defs upt_rec eval_nat_numeral)

lemma counting_engine_differs:
  "fst (forward_st (demo_wrapper_st counting_engine) demo_refs
          (snd (forward_st (demo_wrapper_st counting_engine) demo_refs process0))) \<noteq>
   fst (forward_st (demo_wrapper_st counting_engine) demo_refs process0)"
  by (simp add: st_defs upt_rec eval_nat_numeral)


section \<open>Properties\<close>

subsection \<open>Construction\<close>

text \<open>
  C7. With \<^verbatim>\<open>output_names\<close> omitted, construction asks the network: when it has
  the attribute, the wrapper's names are the network's own, in the network's
  order; when it has not, construction fails with the AssertionError of the
  bare \<^verbatim>\<open>assert\<close>.
\<close>

theorem init_omitted_output_names:
  "init n None =
     (case net_output_names n of
        None \<Rightarrow> Inl (AssertionError [])
      | Some names \<Rightarrow> Inr \<lparr>net = n, output_names = names\<rparr>)"
  by (simp add: init_def base_init_def split: option.split)

theorem init_omitted_output_names_witness:
  "init demo_net None = Inr \<lparr>net = demo_net, output_names = [''boxes'', ''scores'']\<rparr>"
  using init_omitted_output_names [of demo_net] by (simp add: demo_net_def)

subsection \<open>The empty input mapping\<close>

text \<open>
  C9. With an empty input mapping \<^verbatim>\<open>forward\<close> raises the IndexError of
  \<^verbatim>\<open>input_list[0]\<close> and leaves the world as it was: no extractor is created.
\<close>

theorem forward_empty_inputs:
  "forward self [] s = (Inl (IndexError ''list index out of range''), s)"
  by (simp add: forward_def)

theorem forward_empty_inputs_witness:
  "forward demo_wrapper [] world0 = (Inl (IndexError ''list index out of range''), world0)"
  by (rule forward_empty_inputs)

subsection \<open>Mixed batch sizes\<close>

text \<open>
  C3. When two input tensors have different leading dimensions, \<^verbatim>\<open>forward\<close>
  fails and the world is as before the call: no extractor was created.
\<close>

theorem forward_mixed_batch_sizes:
  assumes "(k1, t1) \<in> set inputs" "(k2, t2) \<in> set inputs"
    and "size0 t1 = Inr b1" "size0 t2 = Inr b2" "b1 \<noteq> b2"
  shows "\<exists>e. forward self inputs s = (Inl e, s)"
proof (cases "map snd inputs")
  case Nil
  with assms(1) show ?thesis by simp
next
  case (Cons first rest)
  note c = this
  show ?thesis
  proof (cases "size0 first")
    case Inl
    with c show ?thesis by (simp add: forward_def)
  next
    case (Inr b)
    note b = this
    show ?thesis
    proof (cases "check_inputs b rest")
      case Inl
      with c b show ?thesis by (simp add: forward_def)
    next
      case (Inr u)
      from check_inputs_Inr [OF Inr] b
      have "list_all (\<lambda>x. size0 x = Inr b) (first # rest)" by (simp add: list_all_iff)
      then have all: "\<forall>x\<in>set (map snd inputs). size0 x = Inr b"
        unfolding c by (simp add: list_all_iff)
      from assms(1,2) have "t1 \<in> set (map snd inputs)" "t2 \<in> set (map snd inputs)"
        by force+
      with all have "size0 t1 = Inr b" "size0 t2 = Inr b" by blast+
      with assms(3-5) show ?thesis by simp
    qed
  qed
qed

theorem forward_mixed_batch_sizes_witness:
  "\<exists>e. forward demo_wrapper mixed_inputs world0 = (Inl e, world0)"
  by (rule forward_mixed_batch_sizes
        [of "''a''" "cpu_tensor [2] [1, 2]" mixed_inputs "''b''" "cpu_tensor [3] [1, 2, 3]" 2 3])
     (simp_all add: mixed_inputs_def cpu_tensor_def size0_def)

subsection \<open>The returned mapping\<close>



text \<open>
  C6. Whenever \<^verbatim>\<open>forward\<close> returns a mapping, the inputs have a common leading
  dimension, the batch size, and it is the leading dimension of every tensor
  of the mapping.
\<close>

theorem forward_leading_dimension:
  assumes "forward self inputs s = (Inr outs, s')"
  shows "\<exists>b. inputs \<noteq> [] \<and> list_all (\<lambda>x. size0 x = Inr b) (map snd inputs) \<and>
             list_all (\<lambda>t. size0 t = Inr b) (map snd outs)"
proof -
  from assms obtain first rest b outs1 where
    inp: "map snd inputs = first # rest" and b: "size0 first = Inr b" and
    chk: "check_inputs b rest = Inr ()" and
    run: "run_batch (net self) (output_names self) inputs [0..<b]
       (dict_of (map (\<lambda>name. (name, replicate b None)) (output_names self))) s = (Inr outs1, s')"
    and st: "stack_outputs outs1 = Inr outs"
    by (rule forward_Inr_cases)
  from check_inputs_Inr [OF chk] have "list_all (\<lambda>x. size0 x = Inr b) rest"
    by (simp add: list_all_iff)
  with inp b have ins: "list_all (\<lambda>x. size0 x = Inr b) (map snd inputs)" by simp
  have "list_all (\<lambda>sl. length sl = b)
          (map snd (dict_of (map (\<lambda>name. (name, replicate b (None :: 'a tensor option)))
                      (output_names self))))"
    by (rule dict_of_vals) (simp add: list_all_iff)
  with run have len: "list_all (\<lambda>sl. length sl = b) (map snd outs1)"
    by (rule run_batch_lengths)
  from stack_outputs_Inr [OF st]
  have rel: "list_all2 (\<lambda>p q. stack (snd p) = Inr (snd q)) outs1 outs" by simp
  have "list_all (\<lambda>t. size0 t = Inr b) (map snd outs)"
    unfolding list_all_iff
  proof
    fix t assume "t \<in> set (map snd outs)"
    then obtain q where q: "q \<in> set outs" "t = snd q" by auto
    with list_all2_right [OF rel, of q] obtain p where
      p: "p \<in> set outs1" "stack (snd p) = Inr t"
      by auto
    from p(1) len have "length (snd p) = b" by (auto simp: list_all_iff)
    with stack_size0 [OF p(2)] show "size0 t = Inr b" by simp
  qed
  with ins inp show ?thesis by auto
qed

theorem forward_leading_dimension_witness:
  "\<exists>b. demo_inputs \<noteq> [] \<and> list_all (\<lambda>x. size0 x = Inr b) (map snd demo_inputs) \<and>
        list_all (\<lambda>t. size0 t = Inr b) (map snd demo_outputs)"
  by (rule forward_leading_dimension [OF demo_forward])

subsection \<open>Determinism\<close>

text \<open>
  C8. Take two calls of \<^verbatim>\<open>forward\<close> on one wrapper with the same input mapping,
  made in two states of the process in which the Network Handle is the same
  and the input tensors hold the same elements, whatever else the memory
  holds. When the engine is a deterministic function of the handle and the
  inputs, the two calls return the same mapping, tensor for tensor, or raise
  the same error.
\<close>

theorem forward_st_deterministic:
  assumes "deterministic_engine inputs (net_st self)"
    and "same_view inputs s s'"
  shows "fst (forward_st self inputs s) = fst (forward_st self inputs s')"
  using assms by (rule forward_st_same)

theorem forward_st_deterministic_witness:
  "fst (forward_st (demo_wrapper_st caching_engine) demo_refs
          (snd (forward_st (demo_wrapper_st caching_engine) demo_refs process0))) =
   Inr [(''boxes'', cpu_tensor [2, 2] [1, 2, 3, 4]), (''scores'', cpu_tensor [2, 1] [7, 7])]"
  using forward_st_deterministic [of demo_refs "demo_wrapper_st caching_engine" process0
          "snd (forward_st (demo_wrapper_st caching_engine) demo_refs process0)"]
        caching_engine_deterministic caching_forward_view caching_forward
  by (simp add: demo_wrapper_st_def)

subsection \<open>A batch of one\<close>

text \<open>
  C4. On a batch of size one that passes validation, with \<open>result\<close> what
  \<^verbatim>\<open>__ncnn_execute\<close> returns for sample 0, \<^verbatim>\<open>forward\<close> creates one extractor and
  returns a mapping that holds, under every output name, the extracted value
  of that name as a CPU tensor under a new leading dimension of length one.
\<close>

theorem forward_batch_one:
  assumes inp: "map snd inputs = first # rest"
    and b: "size0 first = Inr 1"
    and chk: "check_inputs 1 rest = Inr ()"
    and bind: "set_inputs (net self) (create_extractor (net self)) inputs 0 = Inr ex"
    and exec: "ncnn_execute (net self) ex (output_names self) [] = Inr result"
  shows "\<exists>outs. forward self inputs s =
            (Inr outs, s\<lparr>extractors_created := Suc (extractors_created s)\<rparr>) \<and>
          (\<forall>name\<in>set (output_names self). \<exists>out.
              map_of result name = Some out \<and>
              map_of outs name =
                Some \<lparr>shape = 1 # fst (np_array (net self) out),
                      data = snd (np_array (net self) out),
                      device = ''cpu''\<rparr>)"
proof -
  define n where "n = net self"
  define names where "names = output_names self"
  define outs0 where "outs0 = dict_of (map (\<lambda>name. (name, [None :: 'a tensor option])) names)"
  define s1 where "s1 = s\<lparr>extractors_created := Suc (extractors_created s)\<rparr>"
  have m0: "\<And>k. map_of outs0 k = (if k \<in> set names then Some [None] else None)"
    unfolding outs0_def by (rule dict_of_const_map_of)
  from exec have res: "\<forall>k\<in>set names. map_of result k \<noteq> None"
    unfolding n_def names_def by (rule ncnn_execute_keys [THEN conjunct1])
  have slots: "\<forall>k\<in>set names. \<exists>sl. map_of outs0 k = Some sl \<and> 0 < length sl"
    by (simp add: m0)
  from store_results_ok [OF res slots, of n] obtain outs1 where
    st: "store_results n names result 0 outs0 = Inr outs1" and
    upd: "\<forall>k sl out. k \<in> set names \<longrightarrow> map_of outs0 k = Some sl \<longrightarrow> map_of result k = Some out \<longrightarrow>
               map_of outs1 k = Some (sl[0 := Some (from_numpy (np_array n out))])"
    by blast
  have val: "\<exists>out. map_of result k = Some out \<and>
                 map_of outs1 k = Some [Some (from_numpy (np_array n out))]"
    if "k \<in> set names" for k
  proof -
    from res that obtain out where o: "map_of result k = Some out" by auto
    from upd that m0 [of k] o
    have "map_of outs1 k = Some ([None][0 := Some (from_numpy (np_array n out))])" by simp
    with o show ?thesis by simp
  qed
  have run: "run_batch n names inputs [0..<1] outs0 s = (Inr outs1, s1)"
    using bind exec st by (simp add: n_def names_def s1_def Let_def)
  from store_results_keys [OF st] have keys: "map fst outs1 = map fst outs0" .
  have dist: "distinct (map fst outs1)"
    unfolding keys outs0_def by (rule dict_of_distinct)
  have kset: "set (map fst outs1) = set names"
    unfolding keys outs0_def dict_of_keys by (simp add: comp_def)
  have "list_all (\<lambda>sl. \<exists>t. stack sl = Inr t) (map snd outs1)"
    unfolding list_all_iff
  proof
    fix sl assume "sl \<in> set (map snd outs1)"
    then obtain k where ksl: "(k, sl) \<in> set outs1" by auto
    with dist have "map_of outs1 k = Some sl" by simp
    moreover from ksl kset have "k \<in> set names" by force
    ultimately obtain v where "sl = [Some v]" using val [of k] by auto
    then show "\<exists>t. stack sl = Inr t" by (simp add: stack_single)
  qed
  then obtain r where r: "stack_outputs outs1 = Inr r"
    using stack_outputs_ok by blast
  have fwd: "forward self inputs s = (Inr r, s1)"
    using inp b chk run r
    by (simp add: forward_def n_def names_def outs0_def Let_def)
  have "\<exists>out. map_of result name = Some out \<and>
          map_of r name = Some \<lparr>shape = 1 # fst (np_array n out),
                                data = snd (np_array n out), device = ''cpu''\<rparr>"
    if "name \<in> set names" for name
  proof -
    from val [OF that] obtain out where
      o: "map_of result name = Some out" and
      m1: "map_of outs1 name = Some [Some (from_numpy (np_array n out))]" by blast
    from stack_outputs_map_of [OF r m1] obtain t where
      "stack [Some (from_numpy (np_array n out))] = Inr t" "map_of r name = Some t" by blast
    then have "map_of r name = Some \<lparr>shape = 1 # fst (np_array n out),
                                data = snd (np_array n out), device = ''cpu''\<rparr>"
      by (simp add: stack_single from_numpy_def)
    with o show ?thesis by blast
  qed
  with fwd show ?thesis
    unfolding n_def names_def s1_def by blast
qed

theorem forward_batch_one_witness:
  "\<exists>outs. forward demo_wrapper one_inputs world0 = (Inr outs, \<lparr>extractors_created = 1\<rparr>) \<and>
      map_of outs ''boxes'' = Some (cpu_tensor [1, 2] [3, 4]) \<and>
      map_of outs ''scores'' = Some (cpu_tensor [1, 1] [7])"
  using forward_batch_one [of one_inputs "cpu_tensor [1, 2] [3, 4]" "[]" demo_wrapper _ _ world0,
     OF _ _ _ one_bind one_exec]
  by (simp add: one_inputs_def demo_wrapper_def demo_net_def cpu_tensor_def size0_def world0_def)

subsection \<open>A batch of none\<close>

text \<open>
  C10, as amended. When the inputs pass validation with batch size 0 and the
  wrapper has at least one output name, \<^verbatim>\<open>forward\<close> creates no extractor and
  fails with the RuntimeError of \<^verbatim>\<open>torch.stack\<close> on an empty list.
\<close>

theorem forward_empty_batch:
  assumes inp: "map snd inputs = first # rest"
    and b: "size0 first = Inr 0"
    and chk: "check_inputs 0 rest = Inr ()"
    and names: "output_names self \<noteq> []"
  shows "forward self inputs s =
           (Inl (RuntimeError ''stack expects a non-empty TensorList''), s)"
proof -
  define outs0 where
    "outs0 = dict_of (map (\<lambda>name. (name, [] :: 'a tensor option list)) (output_names self))"
  have "set (map fst outs0) = set (output_names self)"
    unfolding outs0_def dict_of_keys by (simp add: comp_def)
  with names have ne: "outs0 \<noteq> []" by auto
  have "list_all (\<lambda>sl. sl = []) (map snd outs0)"
    unfolding outs0_def by (rule dict_of_vals) (simp add: list_all_iff)
  with ne have "stack_outputs outs0 =
      Inl (RuntimeError ''stack expects a non-empty TensorList'')"
    by (rule stack_outputs_empty_slots)
  with inp b chk show ?thesis
    by (simp add: forward_def outs0_def)
qed

theorem forward_empty_batch_witness:
  "forward demo_wrapper empty_batch_inputs world0 =
     (Inl (RuntimeError ''stack expects a non-empty TensorList''), world0)"
  by (rule forward_empty_batch [of empty_batch_inputs "cpu_tensor [0, 2] []" "[]"])
     (simp_all add: empty_batch_inputs_def demo_wrapper_def cpu_tensor_def size0_def)

text \<open>
  C10 as stated fails for a wrapper without output names: the stacking loop
  has nothing to stack and the call returns the empty mapping.
\<close>

theorem forward_empty_batch_no_names:
  "forward (named_wrapper demo_net []) empty_batch_inputs world0 = (Inr [], world0)"
  by (simp add: demo_defs)

subsection \<open>The message of a failed extraction\<close>

text \<open>
  C1. With an engine whose extractions fail, the error \<^verbatim>\<open>forward\<close> raises is
  the same whether the wrapper asked for \<^verbatim>\<open>boxes\<close> or for \<^verbatim>\<open>scores\<close>: its
  message renders the Mat that \<^verbatim>\<open>extract\<close> returned and does not name the
  output.
\<close>

theorem forward_extraction_failure_message:
  "forward (named_wrapper failing_net [''boxes'']) demo_inputs world0 =
     (Inl (AssertionError ''Failed to extract output : <ncnn.Mat>.''),
      \<lparr>extractors_created = 1\<rparr>) \<and>
   forward (named_wrapper failing_net [''scores'']) demo_inputs world0 =
     (Inl (AssertionError ''Failed to extract output : <ncnn.Mat>.''),
      \<lparr>extractors_created = 1\<rparr>)"
  by (simp add: demo_defs upt_rec eval_nat_numeral)

subsection \<open>The device of the first input\<close>

text \<open>
  C2. A tensor on another device is rejected when it is the second input, and
  accepted when it is the first: the call then creates an extractor and
  returns.
\<close>

theorem forward_first_input_device_unchecked:
  "forward (named_wrapper demo_net [''boxes'']) cuda_second_inputs world0 =
     (Inl (AssertionError ''NCNN only supports cpu device''), world0) \<and>
   forward (named_wrapper demo_net [''boxes'']) cuda_inputs world0 =
     (Inr [(''boxes'', cpu_tensor [1, 2] [3, 4])], \<lparr>extractors_created = 1\<rparr>)"
  by (simp add: demo_defs)

end
